theory Spec2Isabelle
  imports Complex_Main
begin

section \<open>Python values used by \<open>finetune/datasets/t2v_dataset.py\<close>\<close>

text \<open>
  Exceptions are values. \<open>ValueError\<close> and \<open>NotImplementedError\<close> carry their message;
  \<open>ExternalError\<close> stands for whatever an external collaborator (the loaders, the decoders,
  the encode function) raises.
\<close>

datatype py_error =
    ValueError string
  | NotImplementedError string
  | IndexError
  | TypeError
  | RuntimeError
  | StopIteration
  | ZeroDivisionError
  | OverflowError
  | FileExistsError
  | FileNotFoundError
  | NotADirectoryError
  | IsADirectoryError
  | UnpicklingError
  | ExternalError string

text \<open>
  \<open>xs[i]\<close> on a Python list: a negative index counts from the end, an index out of range
  raises \<open>IndexError\<close>.
\<close>

definition py_getitem :: "'a list \<Rightarrow> int \<Rightarrow> py_error + 'a" where
  "py_getitem xs i =
     (if 0 \<le> i \<and> i < int (length xs) then Inr (xs ! nat i)
      else if i < 0 \<and> - int (length xs) \<le> i then Inr (xs ! nat (int (length xs) + i))
      else Inl IndexError)"

text \<open>The decimal rendering of a length, as an f-string prints it.\<close>

fun show_nat :: "nat \<Rightarrow> string" where
  "show_nat n =
     (if n < 10 then [''0123456789'' ! n]
      else show_nat (n div 10) @ [''0123456789'' ! (n mod 10)])"

declare show_nat.simps [simp del]

subsection \<open>Paths (\<open>pathlib.PurePosixPath\<close>)\<close>

text \<open>
  A path is its root (\<open>''''\<close> for a relative path, \<open>''/''\<close>, or \<open>''//''\<close>) and
  its components. \<open>path_of_str\<close> is the constructor \<open>Path(s)\<close>: empty components and
  \<open>.\<close> are dropped, exactly two leading slashes are kept as the root \<open>//\<close>.
\<close>

datatype path = Path (root: string) (parts: "string list")

fun split_on :: "char \<Rightarrow> string \<Rightarrow> string list" where
  "split_on c [] = [[]]"
| "split_on c (x # xs) =
     (if x = c then [] # split_on c xs
      else (case split_on c xs of [] \<Rightarrow> [[x]] | w # ws \<Rightarrow> (x # w) # ws))"

definition leading_slashes :: "string \<Rightarrow> nat" where
  "leading_slashes s = length (takeWhile (\<lambda>c. c = CHR ''/'') s)"

definition path_of_str :: "string \<Rightarrow> path" where
  "path_of_str s =
     Path (if leading_slashes s = 0 then '''' else if leading_slashes s = 2 then ''//'' else ''/'')
          (filter (\<lambda>w. w \<noteq> '''' \<and> w \<noteq> ''.'') (split_on (CHR ''/'') s))"

text \<open>\<open>p / q\<close>: an anchored right operand replaces the left one.\<close>

definition joinpath :: "path \<Rightarrow> path \<Rightarrow> path" where
  "joinpath p q = (if root q \<noteq> '''' then q else Path (root p) (parts p @ parts q))"

definition joinstr :: "path \<Rightarrow> string \<Rightarrow> path" where
  "joinstr p s = joinpath p (path_of_str s)"

definition parent :: "path \<Rightarrow> path" where
  "parent p = (if parts p = [] then p else Path (root p) (butlast (parts p)))"

definition name :: "path \<Rightarrow> string" where
  "name p = (if parts p = [] then '''' else last (parts p))"

text \<open>
  \<open>stem\<close>: the final component without its last suffix. The dot that starts the suffix is
  the last dot of the name, and it counts only when it is neither the first nor the last
  character.
\<close>

definition rfind_dot :: "string \<Rightarrow> nat option" where
  "rfind_dot s =
     (if CHR ''.'' \<in> set s then Some (length s - 1 - length (takeWhile (\<lambda>c. c \<noteq> CHR ''.'') (rev s)))
      else None)"

definition stem :: "path \<Rightarrow> string" where
  "stem p =
     (case rfind_dot (name p) of
        None \<Rightarrow> name p
      | Some i \<Rightarrow> if 0 < i \<and> i < length (name p) - 1 then take i (name p) else name p)"

fun intercalate :: "string \<Rightarrow> string list \<Rightarrow> string" where
  "intercalate sep [] = ''''"
| "intercalate sep [w] = w"
| "intercalate sep (w # ws) = w @ sep @ intercalate sep ws"

text \<open>What \<open>path_of_str\<close> can produce: no component is empty, a dot, or holds a slash.\<close>

definition path_ok :: "path \<Rightarrow> bool" where
  "path_ok p \<longleftrightarrow>
     (root p = '''' \<or> root p = ''/'' \<or> root p = ''//'') \<and>
     list_all (\<lambda>c. c \<noteq> '''' \<and> c \<noteq> ''.'' \<and> CHR ''/'' \<notin> set c) (parts p)"

definition path_str :: "path \<Rightarrow> string" where
  "path_str p =
     (if root p = '''' \<and> parts p = [] then ''.'' else root p @ intercalate ''/'' (parts p))"


subsection \<open>Tensors\<close>

text \<open>
  A tensor is its shape, its elements in row-major order, the device it lives on and its
  element type. An element is the rational number that the stored value denotes: an integer
  from 0 to 255 in a \<open>uint8\<close> tensor, a finite binary floating-point value in a \<open>float32\<close>
  or \<open>float64\<close> tensor.
\<close>

datatype device = Cpu | Cuda nat

datatype dtype = UInt8 | Float32 | Float64

record tensor =
  shape :: "nat list"
  storage :: "rat list"
  dev :: device
  dtype :: dtype

definition tensor_ok :: "tensor \<Rightarrow> bool" where
  "tensor_ok t \<longleftrightarrow> length (storage t) = prod_list (shape t)"

subsection \<open>The file system\<close>

text \<open>
  A file holds either bytes this module never interprets (a video, a text file) or a
  tensor written by \<open>torch.save\<close>. The file system maps a path to what is there. The
  current directory and the roots (the paths with no components) always exist.
\<close>

datatype file_content = RawBytes string | SavedTensor tensor

datatype node = Dir | File file_content

type_synonym filesystem = "path \<rightharpoonup> node"

definition lookup :: "filesystem \<Rightarrow> path \<Rightarrow> node option" where
  "lookup fs p = (if parts p = [] then Some Dir else fs p)"

definition path_exists :: "filesystem \<Rightarrow> path \<Rightarrow> bool" where
  "path_exists fs p \<longleftrightarrow> lookup fs p \<noteq> None"

definition is_file :: "filesystem \<Rightarrow> path \<Rightarrow> bool" where
  "is_file fs p \<longleftrightarrow> (case lookup fs p of Some (File c) \<Rightarrow> True | _ \<Rightarrow> False)"

definition is_dir :: "filesystem \<Rightarrow> path \<Rightarrow> bool" where
  "is_dir fs p \<longleftrightarrow> lookup fs p = Some Dir"

text \<open>Every entry lives in a directory.\<close>

definition fs_ok :: "filesystem \<Rightarrow> bool" where
  "fs_ok fs \<longleftrightarrow> (\<forall>p. fs p \<noteq> None \<longrightarrow> parts p \<noteq> [] \<longrightarrow> is_dir fs (parent p))"

text \<open>\<open>os.mkdir(p)\<close>.\<close>

definition os_mkdir :: "filesystem \<Rightarrow> path \<Rightarrow> py_error + filesystem" where
  "os_mkdir fs p =
     (case lookup fs p of
        Some n \<Rightarrow> Inl FileExistsError
      | None \<Rightarrow>
          (case lookup fs (parent p) of
             None \<Rightarrow> Inl FileNotFoundError
           | Some (File c) \<Rightarrow> Inl NotADirectoryError
           | Some Dir \<Rightarrow> Inr (fs(p \<mapsto> Dir))))"

text \<open>
  \<open>Path.mkdir(parents=False, exist_ok=True)\<close>: a missing parent is an error; any other
  failure is forgiven when the path is a directory already.
\<close>

definition mkdir_exist_ok :: "filesystem \<Rightarrow> path \<Rightarrow> py_error + filesystem" where
  "mkdir_exist_ok fs p =
     (case os_mkdir fs p of
        Inr fs' \<Rightarrow> Inr fs'
      | Inl e \<Rightarrow>
          if e = FileNotFoundError then Inl e
          else if is_dir fs p then Inr fs else Inl e)"

text \<open>
  \<open>Path.mkdir(parents=True, exist_ok=True)\<close>: on a missing parent, make the parent the same
  way and try once more.
\<close>

function mkdir_parents :: "filesystem \<Rightarrow> path \<Rightarrow> py_error + filesystem" where
  "mkdir_parents fs p =
     (case os_mkdir fs p of
        Inr fs' \<Rightarrow> Inr fs'
      | Inl e \<Rightarrow>
          if e = FileNotFoundError then
            (if parts p = [] then Inl e
             else (case mkdir_parents fs (Path (root p) (butlast (parts p))) of
                     Inl e' \<Rightarrow> Inl e'
                   | Inr fs' \<Rightarrow> mkdir_exist_ok fs' p))
          else if is_dir fs p then Inr fs else Inl e)"
  by pat_completeness auto
termination
  by (relation "measure (\<lambda>(fs, p). length (parts p))") auto

declare mkdir_parents.simps [simp del]

text \<open>\<open>torch.load(p, weights_only=True)\<close> and \<open>torch.save(t, p)\<close>.\<close>

definition torch_load :: "filesystem \<Rightarrow> path \<Rightarrow> py_error + tensor" where
  "torch_load fs p =
     (case lookup fs p of
        None \<Rightarrow> Inl FileNotFoundError
      | Some Dir \<Rightarrow> Inl IsADirectoryError
      | Some (File (RawBytes b)) \<Rightarrow> Inl UnpicklingError
      | Some (File (SavedTensor t)) \<Rightarrow> Inr t)"

definition torch_save :: "filesystem \<Rightarrow> tensor \<Rightarrow> path \<Rightarrow> py_error + filesystem" where
  "torch_save fs t p =
     (case lookup fs p of
        Some Dir \<Rightarrow> Inl IsADirectoryError
      | _ \<Rightarrow>
          (case lookup fs (parent p) of
             None \<Rightarrow> Inl FileNotFoundError
           | Some (File c) \<Rightarrow> Inl NotADirectoryError
           | Some Dir \<Rightarrow> Inr (fs(p \<mapsto> File (SavedTensor t)))))"

subsection \<open>Tensor operations\<close>

text \<open>\<open>t.to(device)\<close> with \<open>device=None\<close> returns \<open>t\<close>; \<open>t.cpu()\<close>.\<close>

definition tensor_to :: "device option \<Rightarrow> tensor \<Rightarrow> tensor" where
  "tensor_to d t = (case d of None \<Rightarrow> t | Some d' \<Rightarrow> t\<lparr>dev := d'\<rparr>)"

definition cpu :: "tensor \<Rightarrow> tensor" where
  "cpu t = t\<lparr>dev := Cpu\<rparr>"

text \<open>
  \<open>t[i]\<close> for \<open>0 \<le> i\<close>: the \<open>i\<close>-th slice along the leading axis. A tensor without axes
  cannot be indexed.
\<close>

definition select0 :: "tensor \<Rightarrow> nat \<Rightarrow> py_error + tensor" where
  "select0 t i =
     (case shape t of
        [] \<Rightarrow> Inl IndexError
      | n # rest \<Rightarrow>
          if n \<le> i then Inl IndexError
          else Inr \<lparr>shape = rest,
                    storage = take (prod_list rest) (drop (i * prod_list rest) (storage t)),
                    dev = dev t, dtype = dtype t\<rparr>)"

text \<open>\<open>for f in t\<close>: the slices along the leading axis, in order.\<close>

definition unbind0 :: "tensor \<Rightarrow> py_error + tensor list" where
  "unbind0 t =
     (case shape t of
        [] \<Rightarrow> Inl TypeError
      | n # rest \<Rightarrow>
          Inr (map (\<lambda>i. \<lparr>shape = rest,
                          storage = take (prod_list rest) (drop (i * prod_list rest) (storage t)),
                          dev = dev t, dtype = dtype t\<rparr>) [0..<n]))"

text \<open>
  \<open>torch.stack(ts, dim=0)\<close>: the list must not be empty, and its tensors must agree in
  shape and device. The element type of the result is the widest of theirs; a value keeps
  its meaning when its type is widened.
\<close>

definition promote :: "dtype \<Rightarrow> dtype \<Rightarrow> dtype" where
  "promote a b =
     (if a = Float64 \<or> b = Float64 then Float64
      else if a = Float32 \<or> b = Float32 then Float32
      else UInt8)"

definition torch_stack0 :: "tensor list \<Rightarrow> py_error + tensor" where
  "torch_stack0 ts =
     (case ts of
        [] \<Rightarrow> Inl RuntimeError
      | t # rest \<Rightarrow>
          if list_all (\<lambda>u. shape u = shape t \<and> dev u = dev t) rest then
            Inr \<lparr>shape = length ts # shape t, storage = concat (map storage ts), dev = dev t,
                 dtype = foldr promote (map dtype rest) (dtype t)\<rparr>
          else Inl RuntimeError)"

definition unsqueeze0 :: "tensor \<Rightarrow> tensor" where
  "unsqueeze0 t = t\<lparr>shape := 1 # shape t\<rparr>"

text \<open>
  \<open>t.permute(dims)\<close>: \<open>dims\<close> must name every axis once. Axis \<open>k\<close> of the result is axis
  \<open>dims ! k\<close> of \<open>t\<close>. \<open>indices s\<close> lists the multi-indices of a shape in row-major order,
  \<open>ravel s idx\<close> is the position of a multi-index in the storage.
\<close>

fun indices :: "nat list \<Rightarrow> nat list list" where
  "indices [] = [[]]"
| "indices (n # s) = concat (map (\<lambda>i. map ((#) i) (indices s)) [0..<n])"

fun ravel :: "nat list \<Rightarrow> nat list \<Rightarrow> nat" where
  "ravel (n # s) (i # idx) = i * prod_list s + ravel s idx"
| "ravel s idx = 0"

definition index_of :: "nat \<Rightarrow> nat list \<Rightarrow> nat" where
  "index_of j dims = length (takeWhile (\<lambda>d. d \<noteq> j) dims)"

definition source_index :: "nat list \<Rightarrow> nat list \<Rightarrow> nat list" where
  "source_index dims idx = map (\<lambda>j. idx ! index_of j dims) [0..<length dims]"

definition permute :: "nat list \<Rightarrow> tensor \<Rightarrow> py_error + tensor" where
  "permute dims t =
     (if sort dims \<noteq> [0..<length (shape t)] then Inl RuntimeError
      else Inr (t\<lparr>shape := map (\<lambda>d. shape t ! d) dims,
                  storage := map (\<lambda>idx. storage t ! ravel (shape t) (source_index dims idx))
                                 (indices (map (\<lambda>d. shape t ! d) dims))\<rparr>))"

text \<open>The element of a tensor at a multi-index.\<close>

definition elem_at :: "tensor \<Rightarrow> nat list \<Rightarrow> rat" where
  "elem_at t idx = storage t ! ravel (shape t) idx"

subsection \<open>Floating-point rounding, division of integers and \<open>int()\<close>\<close>

text \<open>
  A finite floating-point value is modelled by the rational number it denotes.
  \<open>round_nearest_even p emin x\<close> is the value nearest to \<open>x\<close> among those with a significand
  of \<open>p\<close> bits and an exponent of at least \<open>emin\<close>, a tie going to the even significand:
  with \<open>2^e \<le> |x| < 2^(e + 1)\<close> the spacing of the values around \<open>x\<close> is \<open>2^(e - (p - 1))\<close>;
  below \<open>2^emin\<close> the spacing stays that of \<open>emin\<close>. A \<open>float64\<close> has 53 bits and least
  exponent -1022, a \<open>float32\<close> 24 bits and -126.
\<close>

fun bit_length :: "nat \<Rightarrow> nat" where
  "bit_length n = (if n = 0 then 0 else Suc (bit_length (n div 2)))"

declare bit_length.simps [simp del]

definition pow2 :: "int \<Rightarrow> rat" where
  "pow2 e = (if 0 \<le> e then 2 ^ nat e else 1 / 2 ^ nat (- e))"

definition round_half_even :: "rat \<Rightarrow> int" where
  "round_half_even x =
     (let f = \<lfloor>x\<rfloor>; d = x - of_int f
      in if d < 1 / 2 then f else if 1 / 2 < d then f + 1 else if even f then f else f + 1)"

text \<open>\<open>ilog2 y\<close> is the \<open>e\<close> with \<open>2^e \<le> y < 2^(e + 1)\<close>, for positive \<open>y\<close>.\<close>

definition ilog2 :: "rat \<Rightarrow> int" where
  "ilog2 y =
     (if 1 \<le> y then int (bit_length (nat \<lfloor>y\<rfloor>)) - 1
      else - int (bit_length (nat (\<lceil>1 / y\<rceil> - 1))))"

definition round_nearest_even :: "nat \<Rightarrow> int \<Rightarrow> rat \<Rightarrow> rat" where
  "round_nearest_even p emin x =
     (if x = 0 then 0
      else let e = max (ilog2 \<bar>x\<bar>) emin;
               ulp = pow2 (e - (int p - 1))
           in of_int (round_half_even (x / ulp)) * ulp)"

definition round_double :: "rat \<Rightarrow> rat" where
  "round_double x = round_nearest_even 53 (- 1022) x"

definition round_single :: "rat \<Rightarrow> rat" where
  "round_single x = round_nearest_even 24 (- 126) x"

text \<open>
  \<open>a / b\<close> on Python integers is the \<open>float64\<close> nearest to the exact quotient. It raises on
  a zero divisor and when the rounded quotient is beyond the largest \<open>float64\<close>.
\<close>

definition py_truediv :: "int \<Rightarrow> int \<Rightarrow> py_error + rat" where
  "py_truediv a b =
     (if b = 0 then Inl ZeroDivisionError
      else if pow2 1024 \<le> \<bar>round_double (of_int a / of_int b)\<bar> then Inl OverflowError
      else Inr (round_double (of_int a / of_int b)))"

text \<open>\<open>int(x)\<close> on a float truncates toward zero.\<close>

definition py_int :: "rat \<Rightarrow> int" where
  "py_int x = (if 0 \<le> x then \<lfloor>x\<rfloor> else \<lceil>x\<rceil>)"

text \<open>A bucket dimension that is not negative and that a \<open>float64\<close> holds exactly.\<close>

definition natural_size :: "int \<Rightarrow> bool" where
  "natural_size n \<longleftrightarrow> 0 \<le> n \<and> n < 2 ^ 53"

section \<open>The datasets\<close>

text \<open>
  The functions of \<open>finetune/datasets/utils.py\<close> are external collaborators: they are
  parameters of the model. They read the file system and may raise.
\<close>

record externals =
  load_prompts :: "filesystem \<Rightarrow> path \<Rightarrow> py_error + string list"
  load_videos :: "filesystem \<Rightarrow> path \<Rightarrow> py_error + path list"
  preprocess_video_with_resize ::
    "filesystem \<Rightarrow> path \<Rightarrow> int \<Rightarrow> int \<Rightarrow> int \<Rightarrow> py_error + tensor"
  preprocess_video_with_buckets ::
    "filesystem \<Rightarrow> path \<Rightarrow> (int \<times> int \<times> int) list \<Rightarrow> py_error + tensor"

text \<open>
  The three classes are one record with a tag for the class: the base class, the resize
  variant with \<open>max_num_frames\<close>, \<open>height\<close>, \<open>width\<close>, the bucket variant with its working
  buckets.
\<close>

datatype variant =
    Base
  | WithResize int int int
  | WithBuckets "(int \<times> int \<times> int) list"

record dataset =
  prompts :: "string list"
  videos :: "path list"
  device :: "device option"
  encode_video_fn :: "(tensor \<Rightarrow> py_error + tensor) option"
  kind :: variant

definition missing_file_msg :: "path \<Rightarrow> string" where
  "missing_file_msg p =
     ''Some video files were not found. Please ensure that all video files exist in the dataset directory. Missing file: ''
     @ path_str p"

definition count_mismatch_msg :: "nat \<Rightarrow> nat \<Rightarrow> string" where
  "count_mismatch_msg np nv =
     ''Expected length of prompts and videos to be the same but found len(self.prompts)=''
     @ show_nat np @ '' and len(self.videos)='' @ show_nat nv
     @ ''. Please ensure that the number of caption prompts and videos match in your dataset.''"

text \<open>\<open>BaseT2VDataset.__init__\<close> (lines 54 to 70).\<close>

definition BaseT2VDataset_init ::
  "externals \<Rightarrow> filesystem \<Rightarrow> string \<Rightarrow> string \<Rightarrow> string \<Rightarrow> device option \<Rightarrow>
   (tensor \<Rightarrow> py_error + tensor) option \<Rightarrow> py_error + dataset" where
  "BaseT2VDataset_init ext fs data_root caption_column video_column dv enc =
     (let data_root = path_of_str data_root in
      case load_prompts ext fs (joinstr data_root caption_column) of
        Inl e \<Rightarrow> Inl e
      | Inr ps \<Rightarrow>
          (case load_videos ext fs (joinstr data_root video_column) of
             Inl e \<Rightarrow> Inl e
           | Inr vs \<Rightarrow>
               if list_ex (\<lambda>p. \<not> is_file fs p) vs then
                 (case find (\<lambda>p. \<not> is_file fs p) vs of
                    Some p \<Rightarrow> Inl (ValueError (missing_file_msg p))
                  | None \<Rightarrow> Inl StopIteration)
               else if length vs \<noteq> length ps then
                 Inl (ValueError (count_mismatch_msg (length ps) (length vs)))
               else
                 Inr \<lparr>prompts = ps, videos = vs, device = dv, encode_video_fn = enc,
                      kind = Base\<rparr>))"

text \<open>\<open>__len__\<close> (line 73).\<close>

definition len :: "dataset \<Rightarrow> nat" where
  "len ds = length (videos ds)"


text \<open>\<open>T2VDatasetWithResize.__init__\<close> (lines 170 to 174).\<close>

definition T2VDatasetWithResize_init ::
  "externals \<Rightarrow> filesystem \<Rightarrow> int \<Rightarrow> int \<Rightarrow> int \<Rightarrow> string \<Rightarrow> string \<Rightarrow> string \<Rightarrow>
   device option \<Rightarrow> (tensor \<Rightarrow> py_error + tensor) option \<Rightarrow> py_error + dataset" where
  "T2VDatasetWithResize_init ext fs max_num_frames h w data_root caption_column video_column dv enc =
     (case BaseT2VDataset_init ext fs data_root caption_column video_column dv enc of
        Inl e \<Rightarrow> Inl e
      | Inr ds \<Rightarrow> Inr (ds\<lparr>kind := WithResize max_num_frames h w\<rparr>))"

text \<open>
  \<open>T2VDatasetWithBuckets.__init__\<close> (lines 206 to 215): each bucket \<open>b\<close> becomes
  \<open>(int(b[0] / rt), int(b[1] / rh), int(b[2] / rw))\<close>.
\<close>

definition compress_bucket ::
  "int \<Rightarrow> int \<Rightarrow> int \<Rightarrow> int \<times> int \<times> int \<Rightarrow> py_error + int \<times> int \<times> int" where
  "compress_bucket rt rh rw b =
     (case b of (b0, b1, b2) \<Rightarrow>
        (case py_truediv b0 rt of
           Inl e \<Rightarrow> Inl e
         | Inr q0 \<Rightarrow>
             (case py_truediv b1 rh of
                Inl e \<Rightarrow> Inl e
              | Inr q1 \<Rightarrow>
                  (case py_truediv b2 rw of
                     Inl e \<Rightarrow> Inl e
                   | Inr q2 \<Rightarrow> Inr (py_int q0, py_int q1, py_int q2)))))"

fun compress_buckets ::
  "int \<Rightarrow> int \<Rightarrow> int \<Rightarrow> (int \<times> int \<times> int) list \<Rightarrow> py_error + (int \<times> int \<times> int) list" where
  "compress_buckets rt rh rw [] = Inr []"
| "compress_buckets rt rh rw (b # bs) =
     (case compress_bucket rt rh rw b of
        Inl e \<Rightarrow> Inl e
      | Inr c \<Rightarrow>
          (case compress_buckets rt rh rw bs of
             Inl e \<Rightarrow> Inl e
           | Inr cs \<Rightarrow> Inr (c # cs)))"

definition T2VDatasetWithBuckets_init ::
  "externals \<Rightarrow> filesystem \<Rightarrow> (int \<times> int \<times> int) list \<Rightarrow> int \<Rightarrow> int \<Rightarrow> int \<Rightarrow>
   string \<Rightarrow> string \<Rightarrow> string \<Rightarrow> device option \<Rightarrow> (tensor \<Rightarrow> py_error + tensor) option \<Rightarrow>
   py_error + dataset" where
  "T2VDatasetWithBuckets_init ext fs video_resolution_buckets rt rh rw
       data_root caption_column video_column dv enc =
     (case BaseT2VDataset_init ext fs data_root caption_column video_column dv enc of
        Inl e \<Rightarrow> Inl e
      | Inr ds \<Rightarrow>
          (case compress_buckets rt rh rw video_resolution_buckets of
             Inl e \<Rightarrow> Inl e
           | Inr bs \<Rightarrow> Inr (ds\<lparr>kind := WithBuckets bs\<rparr>)))"

subsection \<open>\<open>preprocess\<close> and \<open>video_transform\<close>\<close>

definition not_implemented :: py_error where
  "not_implemented = NotImplementedError ''Subclass must implement this method''"

definition preprocess :: "dataset \<Rightarrow> externals \<Rightarrow> filesystem \<Rightarrow> path \<Rightarrow> py_error + tensor" where
  "preprocess ds ext fs video_path =
     (case kind ds of
        Base \<Rightarrow> Inl not_implemented
      | WithResize max_num_frames h w \<Rightarrow>
          preprocess_video_with_resize ext fs video_path max_num_frames h w
      | WithBuckets bs \<Rightarrow> preprocess_video_with_buckets ext fs video_path bs)"

text \<open>
  The frame transform of both variants: \<open>lambda x: x / 255.0 * 2.0 - 1.0\<close>. On a tensor the
  three operations work element by element, and the result of each is rounded to the
  element type of the result: \<open>float64\<close> for a \<open>float64\<close> tensor, \<open>float32\<close>, the default
  floating-point type, for the others. No result is beyond the largest finite value of its
  type, since the argument is a value of that type or a byte.
\<close>

definition float_type :: "dtype \<Rightarrow> dtype" where
  "float_type d = (case d of Float64 \<Rightarrow> Float64 | Float32 \<Rightarrow> Float32 | UInt8 \<Rightarrow> Float32)"

definition fl :: "dtype \<Rightarrow> rat \<Rightarrow> rat" where
  "fl d x = (case float_type d of Float64 \<Rightarrow> round_double x | _ \<Rightarrow> round_single x)"

definition frame_value :: "dtype \<Rightarrow> rat \<Rightarrow> rat" where
  "frame_value d v = fl d (fl d (fl d (v / 255) * 2) - 1)"

definition frame_transform :: "tensor \<Rightarrow> tensor" where
  "frame_transform x =
     x\<lparr>storage := map (frame_value (dtype x)) (storage x), dtype := float_type (dtype x)\<rparr>"

text \<open>\<open>torch.stack([self.__frame_transform(f) for f in frames], dim=0)\<close>.\<close>

definition stack_transformed :: "tensor \<Rightarrow> py_error + tensor" where
  "stack_transformed frames =
     (case unbind0 frames of
        Inl e \<Rightarrow> Inl e
      | Inr fs \<Rightarrow> torch_stack0 (map frame_transform fs))"

definition video_transform :: "dataset \<Rightarrow> tensor \<Rightarrow> py_error + tensor" where
  "video_transform ds frames =
     (case kind ds of
        Base \<Rightarrow> Inl not_implemented
      | WithResize max_num_frames h w \<Rightarrow> stack_transformed frames
      | WithBuckets bs \<Rightarrow> stack_transformed frames)"

subsection \<open>\<open>__getitem__\<close>\<close>

text \<open>
  Retrieval reads and writes the file system and calls the decoder, the transform and the
  encode function. The state it threads is the file system together with the list of these
  calls, in the order they were made; a call is listed whether or not it raised.
\<close>

datatype event =
    Mkdir path
  | ExistsCheck path
  | TorchLoad path
  | Preprocess path
  | VideoTransform tensor
  | EncodeVideo tensor
  | TorchSave path
  | LogInfo string

record world =
  files :: filesystem
  trace :: "event list"

definition emit :: "event \<Rightarrow> world \<Rightarrow> world" where
  "emit ev w = w\<lparr>trace := trace w @ [ev]\<rparr>"

record video_metadata =
  num_frames :: nat
  height :: nat
  width :: nat

record sample =
  prompt :: string
  encoded_video :: tensor
  video_metadata :: video_metadata

datatype 'b index = IntIndex int | ListIndex "'b list"

datatype 'b item = Batch "'b list" | Item sample

text \<open>The cache miss, lines 99 to 110.\<close>

definition encode_and_save ::
  "dataset \<Rightarrow> externals \<Rightarrow> path \<Rightarrow> path \<Rightarrow> world \<Rightarrow> (py_error + tensor) \<times> world" where
  "encode_and_save ds ext video encoded_video_path w =
     (let w1 = emit (Preprocess video) w in
      case preprocess ds ext (files w1) video of
        Inl e \<Rightarrow> (Inl e, w1)
      | Inr frames \<Rightarrow>
          (let on_device = tensor_to (device ds) frames;
               w2 = emit (VideoTransform on_device) w1 in
           case video_transform ds on_device of
             Inl e \<Rightarrow> (Inl e, w2)
           | Inr transformed \<Rightarrow>
               (case permute [0, 2, 1, 3, 4] (unsqueeze0 transformed) of
                  Inl e \<Rightarrow> (Inl e, w2)
                | Inr batched \<Rightarrow>
                    (case encode_video_fn ds of
                       None \<Rightarrow> (Inl TypeError, w2)
                     | Some enc \<Rightarrow>
                         (let w3 = emit (EncodeVideo batched) w2 in
                          case enc batched of
                            Inl e \<Rightarrow> (Inl e, w3)
                          | Inr out \<Rightarrow>
                              (case select0 out 0 of
                                 Inl e \<Rightarrow> (Inl e, w3)
                               | Inr first \<Rightarrow>
                                   (let encoded_video = cpu first;
                                        w4 = emit (TorchSave encoded_video_path) w3 in
                                    case torch_save (files w4) encoded_video encoded_video_path of
                                      Inl e \<Rightarrow> (Inl e, w4)
                                    | Inr fs' \<Rightarrow>
                                        (Inr encoded_video,
                                         emit (LogInfo (''Saved encoded video to ''
                                                         @ path_str encoded_video_path))
                                              (w4\<lparr>files := fs'\<rparr>)))))))))"

text \<open>The returned dictionary, lines 112 to 120.\<close>

definition make_sample :: "string \<Rightarrow> tensor \<Rightarrow> py_error + sample" where
  "make_sample p encoded =
     (case py_getitem (shape encoded) 1 of
        Inl e \<Rightarrow> Inl e
      | Inr nf \<Rightarrow>
          (case py_getitem (shape encoded) 2 of
             Inl e \<Rightarrow> Inl e
           | Inr h \<Rightarrow>
               (case py_getitem (shape encoded) 3 of
                  Inl e \<Rightarrow> Inl e
                | Inr w \<Rightarrow>
                    Inr \<lparr>prompt = p, encoded_video = encoded,
                         video_metadata = \<lparr>num_frames = nf, height = h, width = w\<rparr>\<rparr>)))"

definition latent_dir :: "path \<Rightarrow> path" where
  "latent_dir video = joinstr (parent video) ''latent''"

definition latent_path :: "path \<Rightarrow> path" where
  "latent_path video = joinstr (latent_dir video) (stem video @ ''.pt'')"

text \<open>\<open>BaseT2VDataset.__getitem__\<close> (lines 76 to 120), inherited by both variants.\<close>

definition getitem ::
  "dataset \<Rightarrow> externals \<Rightarrow> 'b index \<Rightarrow> world \<Rightarrow> (py_error + 'b item) \<times> world" where
  "getitem ds ext ix w =
     (case ix of
        ListIndex xs \<Rightarrow> (Inr (Batch xs), w)
      | IntIndex i \<Rightarrow>
          (case py_getitem (prompts ds) i of
             Inl e \<Rightarrow> (Inl e, w)
           | Inr p \<Rightarrow>
               (case py_getitem (videos ds) i of
                  Inl e \<Rightarrow> (Inl e, w)
                | Inr video \<Rightarrow>
                    (let w1 = emit (Mkdir (latent_dir video)) w in
                     case mkdir_parents (files w1) (latent_dir video) of
                       Inl e \<Rightarrow> (Inl e, w1)
                     | Inr fs1 \<Rightarrow>
                         (let encoded_video_path = latent_path video;
                              w2 = emit (ExistsCheck encoded_video_path) (w1\<lparr>files := fs1\<rparr>);
                              (r, w3) =
                                (if path_exists (files w2) encoded_video_path then
                                   (torch_load (files w2) encoded_video_path,
                                    emit (TorchLoad encoded_video_path) w2)
                                 else encode_and_save ds ext video encoded_video_path w2)
                          in case r of
                               Inl e \<Rightarrow> (Inl e, w3)
                             | Inr encoded \<Rightarrow>
                                 (case make_sample p encoded of
                                    Inl e \<Rightarrow> (Inl e, w3)
                                  | Inr s \<Rightarrow> (Inr (Item s), w3)))))))"

subsection \<open>The three constructors at once\<close>

datatype constructor =
    NewBase
  | NewWithResize int int int
  | NewWithBuckets "(int \<times> int \<times> int) list" int int int

definition construct ::
  "constructor \<Rightarrow> externals \<Rightarrow> filesystem \<Rightarrow> string \<Rightarrow> string \<Rightarrow> string \<Rightarrow> device option \<Rightarrow>
   (tensor \<Rightarrow> py_error + tensor) option \<Rightarrow> py_error + dataset" where
  "construct c ext fs data_root caption_column video_column dv enc =
     (case c of
        NewBase \<Rightarrow> BaseT2VDataset_init ext fs data_root caption_column video_column dv enc
      | NewWithResize m h w \<Rightarrow>
          T2VDatasetWithResize_init ext fs m h w data_root caption_column video_column dv enc
      | NewWithBuckets bs rt rh rw \<Rightarrow>
          T2VDatasetWithBuckets_init ext fs bs rt rh rw data_root caption_column video_column dv enc)"

text \<open>
  Modelled from the spec: \<open>load_prompts\<close> and \<open>load_videos\<close> of
  \<open>finetune/datasets/utils.py\<close>, which is not among the sources. The spec makes both
  files newline-delimited, line \<open>i\<close> of the captions paired with line \<open>i\<close> of the videos, and
  the video paths relative to the dataset root, which \<open>load_videos\<close> sees as the directory of
  the videos file.
\<close>

definition text_lines :: "string \<Rightarrow> string list" where
  "text_lines s = (let ws = split_on (CHR 0x0A) s in if last ws = [] then butlast ws else ws)"

definition read_text :: "filesystem \<Rightarrow> path \<Rightarrow> py_error + string" where
  "read_text fs p =
     (case lookup fs p of
        None \<Rightarrow> Inl FileNotFoundError
      | Some Dir \<Rightarrow> Inl IsADirectoryError
      | Some (File (SavedTensor t)) \<Rightarrow> Inl (ExternalError ''not a text file'')
      | Some (File (RawBytes s)) \<Rightarrow> Inr s)"

definition spec_load_prompts :: "filesystem \<Rightarrow> path \<Rightarrow> py_error + string list" where
  "spec_load_prompts fs p =
     (case read_text fs p of Inl e \<Rightarrow> Inl e | Inr s \<Rightarrow> Inr (text_lines s))"

definition spec_load_videos :: "filesystem \<Rightarrow> path \<Rightarrow> py_error + path list" where
  "spec_load_videos fs p =
     (case read_text fs p of
        Inl e \<Rightarrow> Inl e
      | Inr s \<Rightarrow> Inr (map (joinstr (parent p)) (text_lines s)))"

definition with_spec_loaders :: "externals \<Rightarrow> externals" where
  "with_spec_loaders ext = ext\<lparr>load_prompts := spec_load_prompts, load_videos := spec_load_videos\<rparr>"

subsection \<open>A small data set\<close>

text \<open>
  The directory \<open>/d\<close> with two captions, two videos, and variations of it: the second video
  absent, one caption only, both, and both list files empty.
\<close>

definition no_decoder :: externals where
  "no_decoder =
     \<lparr>load_prompts = spec_load_prompts, load_videos = spec_load_videos,
      preprocess_video_with_resize = (\<lambda>fs p m h w. Inl (ExternalError ''no decoder'')),
      preprocess_video_with_buckets = (\<lambda>fs p bs. Inl (ExternalError ''no decoder''))\<rparr>"

definition two_videos :: filesystem where
  "two_videos = map_of
     [(Path ''/'' [''d''], Dir),
      (Path ''/'' [''d'', ''c.txt''], File (RawBytes (''cat'' @ [CHR 0x0A] @ ''dog'' @ [CHR 0x0A]))),
      (Path ''/'' [''d'', ''v.txt''], File (RawBytes (''a.mp4'' @ [CHR 0x0A] @ ''b.mp4'' @ [CHR 0x0A]))),
      (Path ''/'' [''d'', ''a.mp4''], File (RawBytes ''A'')),
      (Path ''/'' [''d'', ''b.mp4''], File (RawBytes ''B''))]"

definition second_missing :: filesystem where
  "second_missing = two_videos(Path ''/'' [''d'', ''b.mp4''] := None)"

definition one_prompt :: filesystem where
  "one_prompt = two_videos(Path ''/'' [''d'', ''c.txt''] \<mapsto> File (RawBytes ''cat''))"

definition one_prompt_second_missing :: filesystem where
  "one_prompt_second_missing = one_prompt(Path ''/'' [''d'', ''b.mp4''] := None)"

definition both_empty :: filesystem where
  "both_empty = map_of
     [(Path ''/'' [''d''], Dir),
      (Path ''/'' [''d'', ''c.txt''], File (RawBytes '''')),
      (Path ''/'' [''d'', ''v.txt''], File (RawBytes ''''))]"

text \<open>
  The same directory with a cached latent for the first video, with a regular file in the
  place of the \<open>latent\<close> directory, and a dataset over the two videos.
\<close>

definition stored_latent :: tensor where
  "stored_latent =
     \<lparr>shape = [1, 1, 1, 2], storage = [1 / 2, - 1 / 4], dev = Cpu, dtype = Float32\<rparr>"

definition with_cache :: filesystem where
  "with_cache = two_videos
     (Path ''/'' [''d'', ''latent''] \<mapsto> Dir,
      Path ''/'' [''d'', ''latent'', ''a.pt''] \<mapsto> File (SavedTensor stored_latent))"

definition latent_is_a_file :: filesystem where
  "latent_is_a_file = two_videos(Path ''/'' [''d'', ''latent''] \<mapsto> File (RawBytes ''x''))"

definition two_video_dataset :: dataset where
  "two_video_dataset =
     \<lparr>prompts = [''cat'', ''dog''],
      videos = [Path ''/'' [''d'', ''a.mp4''], Path ''/'' [''d'', ''b.mp4'']],
      device = None, encode_video_fn = None, kind = WithResize 49 480 720\<rparr>"

text \<open>Two frames of two channels of one pixel, as bytes.\<close>

definition four_pixels :: tensor where
  "four_pixels =
     \<lparr>shape = [2, 2, 1, 1], storage = [0, 255, 51, 102], dev = Cpu, dtype = UInt8\<rparr>"


text \<open>
  A decoder that returns the two frames for every video that is a file, an encode function
  that keeps the first frame of each channel, and the dataset over the two videos with it.
\<close>

definition toy_decoder :: externals where
  "toy_decoder =
     \<lparr>load_prompts = spec_load_prompts, load_videos = spec_load_videos,
      preprocess_video_with_resize =
        (\<lambda>fs p m h w. if is_file fs p then Inr four_pixels else Inl FileNotFoundError),
      preprocess_video_with_buckets =
        (\<lambda>fs p bs. if is_file fs p then Inr four_pixels else Inl FileNotFoundError)\<rparr>"

definition toy_encode :: "tensor \<Rightarrow> py_error + tensor" where
  "toy_encode x =
     Inr \<lparr>shape = [1, 2, 1, 1, 1], storage = [storage x ! 0, storage x ! 2], dev = Cuda 0,
          dtype = Float32\<rparr>"

definition toy_dataset :: dataset where
  "toy_dataset = two_video_dataset\<lparr>encode_video_fn := Some toy_encode\<rparr>"

section \<open>Construction\<close>

lemma list_ex_find: "list_ex P xs \<longleftrightarrow> find P xs \<noteq> None"
  by (induction xs) auto

lemma base_init_eq:
  assumes "load_prompts ext fs (joinstr (path_of_str data_root) caption_column) = Inr ps"
      and "load_videos ext fs (joinstr (path_of_str data_root) video_column) = Inr vs"
  shows "BaseT2VDataset_init ext fs data_root caption_column video_column dv enc =
     (case find (\<lambda>p. \<not> is_file fs p) vs of
        Some p \<Rightarrow> Inl (ValueError (missing_file_msg p))
      | None \<Rightarrow>
         if length vs \<noteq> length ps then Inl (ValueError (count_mismatch_msg (length ps) (length vs)))
         else Inr \<lparr>prompts = ps, videos = vs, device = dv, encode_video_fn = enc, kind = Base\<rparr>)"
  using assms by (auto simp: BaseT2VDataset_init_def Let_def list_ex_find split: option.splits)

lemma construct_base_error:
  assumes "BaseT2VDataset_init ext fs data_root caption_column video_column dv enc = Inl e"
  shows "construct c ext fs data_root caption_column video_column dv enc = Inl e"
  using assms
  by (cases c) (simp_all add: construct_def T2VDatasetWithResize_init_def T2VDatasetWithBuckets_init_def)

lemma construct_success:
  assumes "construct c ext fs data_root caption_column video_column dv enc = Inr ds"
  shows "\<exists>b k. BaseT2VDataset_init ext fs data_root caption_column video_column dv enc = Inr b
           \<and> ds = b\<lparr>kind := k\<rparr>"
proof (cases c)
  case NewBase
  with assms have "BaseT2VDataset_init ext fs data_root caption_column video_column dv enc = Inr ds"
    by (simp add: construct_def)
  moreover have "ds = ds\<lparr>kind := kind ds\<rparr>" by simp
  ultimately show ?thesis by blast
next
  case (NewWithResize m h w)
  with assms show ?thesis
    by (auto simp: construct_def T2VDatasetWithResize_init_def split: sum.splits)
next
  case (NewWithBuckets bs rt rh rw)
  with assms show ?thesis
    by (auto simp: construct_def T2VDatasetWithBuckets_init_def split: sum.splits)
qed

lemma find_first_failing:
  assumes "\<exists>v\<in>set vs. \<not> P v"
  shows "\<exists>pre p post. vs = pre @ p # post \<and> (\<forall>q\<in>set pre. P q) \<and> \<not> P p
           \<and> find (\<lambda>v. \<not> P v) vs = Some p"
  using assms
proof (induction vs)
  case Nil
  then show ?case by simp
next
  case (Cons v vs)
  show ?case
  proof (cases "P v")
    case False
    then have "v # vs = [] @ v # vs \<and> (\<forall>q\<in>set []. P q) \<and> \<not> P v
        \<and> find (\<lambda>v. \<not> P v) (v # vs) = Some v" by simp
    then show ?thesis by blast
  next
    case True
    with Cons.prems have "\<exists>v\<in>set vs. \<not> P v" by auto
    from Cons.IH [OF this] obtain pre p post where
      h: "vs = pre @ p # post" "\<forall>q\<in>set pre. P q" "\<not> P p" "find (\<lambda>v. \<not> P v) vs = Some p"
      by blast
    with True have "v # vs = (v # pre) @ p # post \<and> (\<forall>q\<in>set (v # pre). P q) \<and> \<not> P p
        \<and> find (\<lambda>v. \<not> P v) (v # vs) = Some p" by simp
    then show ?thesis by blast
  qed
qed

lemmas path_eval =
  joinstr_def joinpath_def path_of_str_def leading_slashes_def parent_def path_str_def
  name_def stem_def rfind_dot_def

lemmas fs_eval = lookup_def is_file_def is_dir_def path_exists_def

lemmas loader_eval =
  no_decoder_def spec_load_prompts_def spec_load_videos_def read_text_def text_lines_def

text \<open>
  Claim C4. When the loaders have delivered the prompts and the videos and at least one listed
  video is not an existing file, every constructor fails with a \<open>ValueError\<close> whose
  message ends with the first such path in list order: the paths before it are all files.
\<close>

theorem missing_video_names_first:
  assumes "load_prompts ext fs (joinstr (path_of_str data_root) caption_column) = Inr ps"
      and "load_videos ext fs (joinstr (path_of_str data_root) video_column) = Inr vs"
      and "\<exists>v\<in>set vs. \<not> is_file fs v"
  shows "\<exists>pre p post. vs = pre @ p # post \<and> (\<forall>q\<in>set pre. is_file fs q) \<and> \<not> is_file fs p \<and>
           construct c ext fs data_root caption_column video_column dv enc =
             Inl (ValueError (''Some video files were not found. Please ensure that all video files exist in the dataset directory. Missing file: '' @ path_str p))"
proof -
  from find_first_failing [OF assms(3)] obtain pre p post where
    h: "vs = pre @ p # post" "\<forall>q\<in>set pre. is_file fs q" "\<not> is_file fs p"
       "find (\<lambda>v. \<not> is_file fs v) vs = Some p"
    by blast
  have "BaseT2VDataset_init ext fs data_root caption_column video_column dv enc =
          Inl (ValueError (missing_file_msg p))"
    by (simp add: base_init_eq [OF assms(1,2)] h(4))
  then have "construct c ext fs data_root caption_column video_column dv enc =
          Inl (ValueError (missing_file_msg p))"
    by (rule construct_base_error)
  with h(1,2,3) show ?thesis
    unfolding missing_file_msg_def by blast
qed


theorem missing_video_names_first_witness:
  "load_prompts no_decoder second_missing (joinstr (path_of_str ''/d'') ''c.txt'') = Inr [''cat'', ''dog'']
   \<and> load_videos no_decoder second_missing (joinstr (path_of_str ''/d'') ''v.txt'')
       = Inr [Path ''/'' [''d'', ''a.mp4''], Path ''/'' [''d'', ''b.mp4'']]
   \<and> is_file second_missing (Path ''/'' [''d'', ''a.mp4''])
   \<and> \<not> is_file second_missing (Path ''/'' [''d'', ''b.mp4''])
   \<and> construct (NewWithResize 49 480 720) no_decoder second_missing ''/d'' ''c.txt'' ''v.txt'' None None =
       Inl (ValueError ''Some video files were not found. Please ensure that all video files exist in the dataset directory. Missing file: /d/b.mp4'')"
proof -
  let ?a = "Path ''/'' [''d'', ''a.mp4'']" and ?b = "Path ''/'' [''d'', ''b.mp4'']"
  have lp: "load_prompts no_decoder second_missing (joinstr (path_of_str ''/d'') ''c.txt'')
              = Inr [''cat'', ''dog'']"
    by (simp add: loader_eval path_eval fs_eval second_missing_def two_videos_def)
  have lv: "load_videos no_decoder second_missing (joinstr (path_of_str ''/d'') ''v.txt'')
              = Inr [?a, ?b]"
    by (simp add: loader_eval path_eval fs_eval second_missing_def two_videos_def)
  have fa: "is_file second_missing ?a"
    by (simp add: fs_eval second_missing_def two_videos_def)
  have fb: "\<not> is_file second_missing ?b"
    by (simp add: fs_eval second_missing_def two_videos_def)
  have ex: "\<exists>v\<in>set [?a, ?b]. \<not> is_file second_missing v"
    using fb by simp
  from missing_video_names_first [OF lp lv ex, of "NewWithResize 49 480 720" None None]
  obtain pre p post where
    h: "[?a, ?b] = pre @ p # post" "\<not> is_file second_missing p"
       "construct (NewWithResize 49 480 720) no_decoder second_missing ''/d'' ''c.txt'' ''v.txt'' None None =
          Inl (ValueError (''Some video files were not found. Please ensure that all video files exist in the dataset directory. Missing file: '' @ path_str p))"
    by blast
  from h(1) have "p \<in> set [?a, ?b]" by (metis in_set_conv_decomp)
  with h(2) fa have "p = ?b" by auto
  with h(3) lp lv fa fb show ?thesis by (simp add: path_str_def)
qed

text \<open>
  Claim C5. When all listed videos are files and the number of prompts differs from the number
  of videos, every constructor fails with a \<open>ValueError\<close> whose message prints both counts;
  and a dataset that was constructed has as its length the number of videos, which is the
  number of prompts.
\<close>

theorem count_mismatch_reports_both_counts:
  assumes "load_prompts ext fs (joinstr (path_of_str data_root) caption_column) = Inr ps"
      and "load_videos ext fs (joinstr (path_of_str data_root) video_column) = Inr vs"
  shows "((\<forall>v\<in>set vs. is_file fs v) \<and> length ps \<noteq> length vs \<longrightarrow>
            construct c ext fs data_root caption_column video_column dv enc =
              Inl (ValueError (''Expected length of prompts and videos to be the same but found len(self.prompts)=''
                               @ show_nat (length ps) @ '' and len(self.videos)='' @ show_nat (length vs)
                               @ ''. Please ensure that the number of caption prompts and videos match in your dataset.'')))
         \<and> (\<forall>ds. construct c ext fs data_root caption_column video_column dv enc = Inr ds \<longrightarrow>
                len ds = length vs \<and> len ds = length ps \<and> videos ds = vs \<and> prompts ds = ps)"
proof (intro conjI impI allI)
  assume a: "(\<forall>v\<in>set vs. is_file fs v) \<and> length ps \<noteq> length vs"
  then have "find (\<lambda>p. \<not> is_file fs p) vs = None"
    by (simp add: find_None_iff)
  with a have "BaseT2VDataset_init ext fs data_root caption_column video_column dv enc =
      Inl (ValueError (count_mismatch_msg (length ps) (length vs)))"
    by (auto simp: base_init_eq [OF assms])
  then show "construct c ext fs data_root caption_column video_column dv enc =
      Inl (ValueError (''Expected length of prompts and videos to be the same but found len(self.prompts)=''
                       @ show_nat (length ps) @ '' and len(self.videos)='' @ show_nat (length vs)
                       @ ''. Please ensure that the number of caption prompts and videos match in your dataset.''))"
    unfolding count_mismatch_msg_def by (rule construct_base_error)
next
  fix ds
  assume "construct c ext fs data_root caption_column video_column dv enc = Inr ds"
  from construct_success [OF this] obtain b k where
    b: "BaseT2VDataset_init ext fs data_root caption_column video_column dv enc = Inr b"
       "ds = b\<lparr>kind := k\<rparr>" by blast
  from b(1) have "videos b = vs \<and> prompts b = ps \<and> length vs = length ps"
    by (auto simp: base_init_eq [OF assms] split: option.splits if_splits)
  with b(2) have r: "videos ds = vs \<and> prompts ds = ps \<and> length vs = length ps" by simp
  from r show "len ds = length vs" by (simp add: len_def)
  from r show "len ds = length ps" by (simp add: len_def)
  from r show "videos ds = vs" by simp
  from r show "prompts ds = ps" by simp
qed

theorem count_mismatch_reports_both_counts_witness:
  "load_prompts no_decoder one_prompt (joinstr (path_of_str ''/d'') ''c.txt'') = Inr [''cat'']
   \<and> load_videos no_decoder one_prompt (joinstr (path_of_str ''/d'') ''v.txt'')
       = Inr [Path ''/'' [''d'', ''a.mp4''], Path ''/'' [''d'', ''b.mp4'']]
   \<and> is_file one_prompt (Path ''/'' [''d'', ''a.mp4''])
   \<and> is_file one_prompt (Path ''/'' [''d'', ''b.mp4''])
   \<and> construct NewBase no_decoder one_prompt ''/d'' ''c.txt'' ''v.txt'' None None =
       Inl (ValueError ''Expected length of prompts and videos to be the same but found len(self.prompts)=1 and len(self.videos)=2. Please ensure that the number of caption prompts and videos match in your dataset.'')
   \<and> (\<exists>ds. construct NewBase no_decoder two_videos ''/d'' ''c.txt'' ''v.txt'' None None = Inr ds
          \<and> len ds = 2 \<and> length (prompts ds) = 2)"
proof -
  let ?a = "Path ''/'' [''d'', ''a.mp4'']" and ?b = "Path ''/'' [''d'', ''b.mp4'']"
  have lp: "load_prompts no_decoder one_prompt (joinstr (path_of_str ''/d'') ''c.txt'') = Inr [''cat'']"
    by (simp add: loader_eval path_eval fs_eval one_prompt_def two_videos_def)
  have lv: "load_videos no_decoder one_prompt (joinstr (path_of_str ''/d'') ''v.txt'') = Inr [?a, ?b]"
    by (simp add: loader_eval path_eval fs_eval one_prompt_def two_videos_def)
  have fl: "\<forall>v\<in>set [?a, ?b]. is_file one_prompt v"
    by (simp add: fs_eval one_prompt_def two_videos_def)
  have s1: "show_nat (Suc 0) = ''1''" and s2: "show_nat (Suc (Suc 0)) = ''2''"
    by (simp_all add: show_nat.simps)
  have lp2: "load_prompts no_decoder two_videos (joinstr (path_of_str ''/d'') ''c.txt'') = Inr [''cat'', ''dog'']"
    by (simp add: loader_eval path_eval fs_eval two_videos_def)
  have lv2: "load_videos no_decoder two_videos (joinstr (path_of_str ''/d'') ''v.txt'') = Inr [?a, ?b]"
    by (simp add: loader_eval path_eval fs_eval two_videos_def)
  have fl2: "\<forall>v\<in>set [?a, ?b]. is_file two_videos v"
    by (simp add: fs_eval two_videos_def)
  have ok: "construct NewBase no_decoder two_videos ''/d'' ''c.txt'' ''v.txt'' None None =
      Inr \<lparr>prompts = [''cat'', ''dog''], videos = [?a, ?b], device = None, encode_video_fn = None, kind = Base\<rparr>"
    using fl2 by (simp add: construct_def base_init_eq [OF lp2 lv2])
  from count_mismatch_reports_both_counts [OF lp lv, of NewBase None None] fl
  have e: "construct NewBase no_decoder one_prompt ''/d'' ''c.txt'' ''v.txt'' None None =
       Inl (ValueError ''Expected length of prompts and videos to be the same but found len(self.prompts)=1 and len(self.videos)=2. Please ensure that the number of caption prompts and videos match in your dataset.'')"
    by (simp add: s1 s2)
  from count_mismatch_reports_both_counts [OF lp2 lv2, of NewBase None None] ok
  have "\<exists>ds. construct NewBase no_decoder two_videos ''/d'' ''c.txt'' ''v.txt'' None None = Inr ds
          \<and> len ds = 2 \<and> length (prompts ds) = 2"
    by simp
  with lp lv fl e show ?thesis by simp
qed

text \<open>
  Claim C9. When a listed video is missing and the counts differ as well, the error raised is
  the one about the missing file, not the one about the counts: the files are checked first.
\<close>

theorem missing_file_checked_before_counts:
  assumes "load_prompts ext fs (joinstr (path_of_str data_root) caption_column) = Inr ps"
      and "load_videos ext fs (joinstr (path_of_str data_root) video_column) = Inr vs"
      and "\<exists>v\<in>set vs. \<not> is_file fs v"
      and "length ps \<noteq> length vs"
  shows "\<exists>p\<in>set vs. \<not> is_file fs p \<and>
           construct c ext fs data_root caption_column video_column dv enc =
             Inl (ValueError (missing_file_msg p)) \<and>
           construct c ext fs data_root caption_column video_column dv enc \<noteq>
             Inl (ValueError (count_mismatch_msg (length ps) (length vs)))"
proof -
  from find_first_failing [OF assms(3)] obtain pre p post where
    h: "vs = pre @ p # post" "\<not> is_file fs p" "find (\<lambda>v. \<not> is_file fs v) vs = Some p"
    by blast
  have "BaseT2VDataset_init ext fs data_root caption_column video_column dv enc =
          Inl (ValueError (missing_file_msg p))"
    by (simp add: base_init_eq [OF assms(1,2)] h(3))
  then have c: "construct c ext fs data_root caption_column video_column dv enc =
          Inl (ValueError (missing_file_msg p))"
    by (rule construct_base_error)
  have "missing_file_msg p \<noteq> count_mismatch_msg (length ps) (length vs)"
    by (simp add: missing_file_msg_def count_mismatch_msg_def)
  with c h(1,2) show ?thesis by auto
qed

theorem missing_file_checked_before_counts_witness:
  "load_prompts no_decoder one_prompt_second_missing (joinstr (path_of_str ''/d'') ''c.txt'') = Inr [''cat'']
   \<and> load_videos no_decoder one_prompt_second_missing (joinstr (path_of_str ''/d'') ''v.txt'')
       = Inr [Path ''/'' [''d'', ''a.mp4''], Path ''/'' [''d'', ''b.mp4'']]
   \<and> \<not> is_file one_prompt_second_missing (Path ''/'' [''d'', ''b.mp4''])
   \<and> construct (NewWithBuckets [(49, 480, 720)] 4 8 8) no_decoder one_prompt_second_missing
         ''/d'' ''c.txt'' ''v.txt'' None None =
       Inl (ValueError ''Some video files were not found. Please ensure that all video files exist in the dataset directory. Missing file: /d/b.mp4'')"
proof -
  let ?a = "Path ''/'' [''d'', ''a.mp4'']" and ?b = "Path ''/'' [''d'', ''b.mp4'']"
  let ?fs = one_prompt_second_missing
  have lp: "load_prompts no_decoder ?fs (joinstr (path_of_str ''/d'') ''c.txt'') = Inr [''cat'']"
    by (simp add: loader_eval path_eval fs_eval one_prompt_second_missing_def one_prompt_def two_videos_def)
  have lv: "load_videos no_decoder ?fs (joinstr (path_of_str ''/d'') ''v.txt'') = Inr [?a, ?b]"
    by (simp add: loader_eval path_eval fs_eval one_prompt_second_missing_def one_prompt_def two_videos_def)
  have fa: "is_file ?fs ?a"
    by (simp add: fs_eval one_prompt_second_missing_def one_prompt_def two_videos_def)
  have fb: "\<not> is_file ?fs ?b"
    by (simp add: fs_eval one_prompt_second_missing_def one_prompt_def two_videos_def)
  have ex: "\<exists>v\<in>set [?a, ?b]. \<not> is_file ?fs v" using fb by simp
  have ne: "length [''cat''] \<noteq> length [?a, ?b]" by simp
  from missing_file_checked_before_counts [OF lp lv ex ne, of "NewWithBuckets [(49, 480, 720)] 4 8 8" None None]
  obtain p where
    h: "p \<in> set [?a, ?b]" "\<not> is_file ?fs p"
       "construct (NewWithBuckets [(49, 480, 720)] 4 8 8) no_decoder ?fs ''/d'' ''c.txt'' ''v.txt'' None None =
          Inl (ValueError (missing_file_msg p))"
    by blast
  from h(1,2) fa have "p = ?b" by auto
  with h(3) lp lv fb show ?thesis by (simp add: missing_file_msg_def path_str_def)
qed

lemma text_lines_empty: "text_lines '''' = []"
  by (simp add: text_lines_def)

lemma spec_loaders_on_empty:
  assumes "lookup fs p = Some (File (RawBytes ''''))"
  shows "load_prompts (with_spec_loaders ext) fs p = Inr []"
    and "load_videos (with_spec_loaders ext) fs p = Inr []"
  using assms
  by (simp_all add: with_spec_loaders_def spec_load_prompts_def spec_load_videos_def
      read_text_def text_lines_empty)

text \<open>
  Claim C10. With the loaders as the spec describes them, a captions file and a videos file
  that are both empty give a dataset with no prompts and no videos, of length 0: nothing in
  the constructors asks for a sample. (The bucket variant besides needs its bucket
  divisions not to raise.)
\<close>

theorem empty_files_give_empty_dataset:
  assumes "lookup fs (joinstr (path_of_str data_root) caption_column) = Some (File (RawBytes ''''))"
      and "lookup fs (joinstr (path_of_str data_root) video_column) = Some (File (RawBytes ''''))"
  shows "construct NewBase (with_spec_loaders ext) fs data_root caption_column video_column dv enc =
           Inr \<lparr>prompts = [], videos = [], device = dv, encode_video_fn = enc, kind = Base\<rparr>
       \<and> construct (NewWithResize m h w) (with_spec_loaders ext) fs data_root caption_column
             video_column dv enc =
           Inr \<lparr>prompts = [], videos = [], device = dv, encode_video_fn = enc,
                kind = WithResize m h w\<rparr>
       \<and> (compress_buckets rt rh rw bs = Inr cs \<longrightarrow>
            construct (NewWithBuckets bs rt rh rw) (with_spec_loaders ext) fs data_root
               caption_column video_column dv enc =
             Inr \<lparr>prompts = [], videos = [], device = dv, encode_video_fn = enc,
                  kind = WithBuckets cs\<rparr>)
       \<and> (\<forall>c ds. construct c (with_spec_loaders ext) fs data_root caption_column video_column
                    dv enc = Inr ds \<longrightarrow> len ds = 0)"
proof -
  note lp = spec_loaders_on_empty(1) [OF assms(1), of ext]
  note lv = spec_loaders_on_empty(2) [OF assms(2), of ext]
  have b: "BaseT2VDataset_init (with_spec_loaders ext) fs data_root caption_column video_column dv enc =
      Inr \<lparr>prompts = [], videos = [], device = dv, encode_video_fn = enc, kind = Base\<rparr>"
    by (simp add: base_init_eq [OF lp lv])
  have 1: "construct NewBase (with_spec_loaders ext) fs data_root caption_column video_column dv enc =
           Inr \<lparr>prompts = [], videos = [], device = dv, encode_video_fn = enc, kind = Base\<rparr>"
    by (simp add: construct_def b)
  have 2: "construct (NewWithResize m h w) (with_spec_loaders ext) fs data_root caption_column
             video_column dv enc =
           Inr \<lparr>prompts = [], videos = [], device = dv, encode_video_fn = enc,
                kind = WithResize m h w\<rparr>"
    by (simp add: construct_def T2VDatasetWithResize_init_def b)
  have 3: "compress_buckets rt rh rw bs = Inr cs \<longrightarrow>
            construct (NewWithBuckets bs rt rh rw) (with_spec_loaders ext) fs data_root
               caption_column video_column dv enc =
             Inr \<lparr>prompts = [], videos = [], device = dv, encode_video_fn = enc,
                  kind = WithBuckets cs\<rparr>"
    by (simp add: construct_def T2VDatasetWithBuckets_init_def b)
  have 4: "\<forall>c ds. construct c (with_spec_loaders ext) fs data_root caption_column video_column
                    dv enc = Inr ds \<longrightarrow> len ds = 0"
  proof (intro allI impI)
    fix c ds
    assume "construct c (with_spec_loaders ext) fs data_root caption_column video_column dv enc = Inr ds"
    from construct_success [OF this] b show "len ds = 0"
      by (auto simp: len_def)
  qed
  from 1 2 3 4 show ?thesis by blast
qed

theorem empty_files_give_empty_dataset_witness:
  "lookup both_empty (joinstr (path_of_str ''/d'') ''c.txt'') = Some (File (RawBytes ''''))
   \<and> lookup both_empty (joinstr (path_of_str ''/d'') ''v.txt'') = Some (File (RawBytes ''''))
   \<and> construct (NewWithResize 49 480 720) (with_spec_loaders no_decoder) both_empty
         ''/d'' ''c.txt'' ''v.txt'' None None =
       Inr \<lparr>prompts = [], videos = [], device = None, encode_video_fn = None,
            kind = WithResize 49 480 720\<rparr>
   \<and> len \<lparr>prompts = [], videos = [], device = None, encode_video_fn = None,
            kind = WithResize 49 480 720\<rparr> = 0"
proof -
  have c: "lookup both_empty (joinstr (path_of_str ''/d'') ''c.txt'') = Some (File (RawBytes ''''))"
    by (simp add: path_eval fs_eval both_empty_def)
  have v: "lookup both_empty (joinstr (path_of_str ''/d'') ''v.txt'') = Some (File (RawBytes ''''))"
    by (simp add: path_eval fs_eval both_empty_def)
  from empty_files_give_empty_dataset [OF c v, of no_decoder None None 49 480 720] c v
  show ?thesis by (simp add: len_def)
qed

section \<open>Retrieval\<close>

lemma split_on_no_sep: "c \<notin> set s \<Longrightarrow> split_on c s = [s]"
  by (induction s) auto

lemma path_of_str_component:
  assumes "s \<noteq> ''''" "s \<noteq> ''.''" "CHR ''/'' \<notin> set s"
  shows "path_of_str s = Path '''' [s]"
proof -
  from assms(1,3) have "takeWhile (\<lambda>c. c = CHR ''/'') s = []"
    by (cases s) auto
  with assms show ?thesis
    by (simp add: path_of_str_def leading_slashes_def split_on_no_sep)
qed

lemma latent_dir_eq: "latent_dir v = Path (root v) (butlast (parts v) @ [''latent''])"
proof -
  have "path_of_str ''latent'' = Path '''' [''latent'']"
    by (rule path_of_str_component) simp_all
  then show ?thesis
    by (cases v) (simp add: latent_dir_def joinstr_def joinpath_def parent_def)
qed

lemma stem_no_slash:
  assumes "path_ok v"
  shows "CHR ''/'' \<notin> set (stem v)"
proof -
  have n: "CHR ''/'' \<notin> set (name v)"
  proof (cases "parts v = []")
    case True
    then show ?thesis by (simp add: name_def)
  next
    case False
    then have "last (parts v) \<in> set (parts v)" by simp
    with assms False show ?thesis
      by (auto simp: name_def path_ok_def list_all_iff)
  qed
  have "set (stem v) \<subseteq> set (name v)"
    by (auto simp: stem_def split: option.splits dest: in_set_takeD)
  with n show ?thesis by blast
qed

lemma latent_path_eq:
  assumes "path_ok v"
  shows "latent_path v = Path (root v) (butlast (parts v) @ [''latent'', stem v @ ''.pt''])"
proof -
  have "stem v @ ''.pt'' \<noteq> ''.''"
    by (cases "stem v") auto
  then have "path_of_str (stem v @ ''.pt'') = Path '''' [stem v @ ''.pt'']"
    using stem_no_slash [OF assms] by (intro path_of_str_component) auto
  then show ?thesis
    by (simp add: latent_path_def latent_dir_eq joinstr_def joinpath_def)
qed

lemma parent_latent_path: "path_ok v \<Longrightarrow> parent (latent_path v) = latent_dir v"
  by (simp add: latent_path_eq latent_dir_eq parent_def butlast_append)

lemma latent_path_parts: "path_ok v \<Longrightarrow> parts (latent_path v) \<noteq> []"
  by (simp add: latent_path_eq)

lemma latent_dir_parts: "parts (latent_dir v) \<noteq> []"
  by (simp add: latent_dir_eq)

lemma parent_latent_dir: "parent (latent_dir v) = parent v"
  by (cases v) (simp add: latent_dir_eq parent_def)

lemma mkdir_parents_existing: "is_dir fs p \<Longrightarrow> mkdir_parents fs p = Inr fs"
  by (subst mkdir_parents.simps) (simp add: os_mkdir_def is_dir_def)

lemma mkdir_parents_creates:
  assumes "lookup fs p = None" "is_dir fs (parent p)"
  shows "mkdir_parents fs p = Inr (fs(p \<mapsto> Dir))"
  using assms by (subst mkdir_parents.simps) (simp add: os_mkdir_def is_dir_def)

lemma files_emit [simp]: "files (emit ev w) = files w"
  by (simp add: emit_def)

lemma trace_emit [simp]: "trace (emit ev w) = trace w @ [ev]"
  by (simp add: emit_def)

lemma make_sample_rank4:
  assumes "4 \<le> length (shape t)"
  shows "make_sample p t =
    Inr \<lparr>prompt = p, encoded_video = t,
         video_metadata = \<lparr>num_frames = shape t ! 1, height = shape t ! 2, width = shape t ! 3\<rparr>\<rparr>"
  using assms by (simp add: make_sample_def py_getitem_def)

lemma cached_entry_in_latent_dir:
  assumes "path_ok video" "fs_ok fs" "lookup fs (latent_path video) = Some n"
  shows "is_dir fs (latent_dir video)"
proof -
  from assms(1) have ne: "parts (latent_path video) \<noteq> []" by (rule latent_path_parts)
  with assms(3) have "fs (latent_path video) \<noteq> None" by (simp add: lookup_def)
  with assms(2) ne have "is_dir fs (parent (latent_path video))"
    by (simp add: fs_ok_def)
  with assms(1) show ?thesis by (simp add: parent_latent_path)
qed

lemma getitem_hit:
  assumes p: "py_getitem (prompts ds) i = Inr p"
      and v: "py_getitem (videos ds) i = Inr video"
      and d: "is_dir (files w) (latent_dir video)"
      and c: "lookup (files w) (latent_path video) = Some (File (SavedTensor t))"
      and r: "4 \<le> length (shape t)"
  shows "getitem ds ext (IntIndex i :: 'b index) w =
     (Inr (Item \<lparr>prompt = p, encoded_video = t,
                  video_metadata = \<lparr>num_frames = shape t ! 1, height = shape t ! 2,
                                    width = shape t ! 3\<rparr>\<rparr>),
      w\<lparr>trace := trace w @ [Mkdir (latent_dir video), ExistsCheck (latent_path video),
                               TorchLoad (latent_path video)]\<rparr>)"
proof -
  have m: "mkdir_parents (files w) (latent_dir video) = Inr (files w)"
    using d by (rule mkdir_parents_existing)
  have e: "path_exists (files w) (latent_path video)"
    using c by (simp add: path_exists_def)
  have l: "torch_load (files w) (latent_path video) = Inr t"
    using c by (simp add: torch_load_def)
  show ?thesis
    by (simp add: getitem_def p v m e l make_sample_rank4 [OF r] Let_def emit_def)
qed

text \<open>
  Claim C3. A list passed as the index comes back as it is: no prompt or video is looked up,
  the file system is the same afterwards and no call is added to the trace.
\<close>

theorem list_index_passes_through:
  "getitem ds ext (ListIndex xs) w = (Inr (Batch xs), w)"
  by (simp add: getitem_def)

lemma constructed_lengths:
  assumes "construct c ext fs data_root caption_column video_column dv enc = Inr ds"
  shows "length (prompts ds) = length (videos ds)"
proof -
  from construct_success [OF assms] obtain b k where
    b: "BaseT2VDataset_init ext fs data_root caption_column video_column dv enc = Inr b"
       "ds = b\<lparr>kind := k\<rparr>" by blast
  from b(1) have "length (prompts b) = length (videos b)"
    by (auto simp: BaseT2VDataset_init_def Let_def split: sum.splits if_splits option.splits)
  with b(2) show ?thesis by simp
qed

lemma valid_index_lookups:
  assumes "length (prompts ds) = length (videos ds)" "- int (len ds) \<le> i" "i < int (len ds)"
  shows "\<exists>p v. py_getitem (prompts ds) i = Inr p \<and> py_getitem (videos ds) i = Inr v"
  using assms by (auto simp: py_getitem_def len_def)

text \<open>
  Claim C2. When the index names a prompt and a video and the cache entry of the video holds a
  stored latent (a tensor of at least four axes, in a well-formed file system), retrieval
  returns that latent with the metadata read from its shape. The calls it makes are the
  directory creation, the existence check and the load: the decoder, the transform and the
  encode function are not called, and the file system is unchanged. Retrieving the same index
  again, with any other encode function and any other collaborators, returns the same record.
\<close>

theorem cache_hit_skips_the_encoder:
  assumes "py_getitem (prompts ds) i = Inr p"
      and "py_getitem (videos ds) i = Inr video"
      and "path_ok video"
      and "fs_ok (files w)"
      and "lookup (files w) (latent_path video) = Some (File (SavedTensor t))"
      and "4 \<le> length (shape t)"
  shows "getitem ds ext (IntIndex i :: 'b index) w =
           (Inr (Item \<lparr>prompt = p, encoded_video = t,
                        video_metadata = \<lparr>num_frames = shape t ! 1, height = shape t ! 2,
                                          width = shape t ! 3\<rparr>\<rparr>),
            w\<lparr>trace := trace w @ [Mkdir (latent_dir video), ExistsCheck (latent_path video),
                                     TorchLoad (latent_path video)]\<rparr>)
       \<and> fst (getitem (ds\<lparr>encode_video_fn := enc'\<rparr>) ext' (IntIndex i :: 'b index)
                 (snd (getitem ds ext (IntIndex i :: 'b index) w))) =
           Inr (Item \<lparr>prompt = p, encoded_video = t,
                       video_metadata = \<lparr>num_frames = shape t ! 1, height = shape t ! 2,
                                         width = shape t ! 3\<rparr>\<rparr>)"
proof -
  have d: "is_dir (files w) (latent_dir video)"
    using assms(3,4,5) by (rule cached_entry_in_latent_dir)
  note first = getitem_hit [OF assms(1,2) d assms(5,6), of ext, where ?'b = 'b]
  let ?w' = "w\<lparr>trace := trace w @ [Mkdir (latent_dir video), ExistsCheck (latent_path video),
                                     TorchLoad (latent_path video)]\<rparr>"
  have p': "py_getitem (prompts (ds\<lparr>encode_video_fn := enc'\<rparr>)) i = Inr p"
    and v': "py_getitem (videos (ds\<lparr>encode_video_fn := enc'\<rparr>)) i = Inr video"
    using assms(1,2) by simp_all
  have d': "is_dir (files ?w') (latent_dir video)" using d by simp
  have c': "lookup (files ?w') (latent_path video) = Some (File (SavedTensor t))"
    using assms(5) by simp
  note second = getitem_hit [OF p' v' d' c' assms(6), of ext', where ?'b = 'b]
  show ?thesis
    unfolding first using second by simp
qed

lemma fs_ok_with_cache: "fs_ok with_cache"
  by (auto simp: fs_ok_def with_cache_def two_videos_def is_dir_def lookup_def parent_def
      split: if_splits)

theorem cache_hit_skips_the_encoder_witness:
  "py_getitem (prompts two_video_dataset) 0 = Inr ''cat''
   \<and> py_getitem (videos two_video_dataset) 0 = Inr (Path ''/'' [''d'', ''a.mp4''])
   \<and> path_ok (Path ''/'' [''d'', ''a.mp4''])
   \<and> fs_ok with_cache
   \<and> lookup with_cache (latent_path (Path ''/'' [''d'', ''a.mp4'']))
       = Some (File (SavedTensor stored_latent))
   \<and> 4 \<le> length (shape stored_latent)
   \<and> getitem two_video_dataset no_decoder (IntIndex 0 :: unit index)
         \<lparr>files = with_cache, trace = []\<rparr> =
       (Inr (Item \<lparr>prompt = ''cat'', encoded_video = stored_latent,
                    video_metadata = \<lparr>num_frames = 1, height = 1, width = 2\<rparr>\<rparr>),
        \<lparr>files = with_cache,
         trace = [Mkdir (Path ''/'' [''d'', ''latent'']),
                  ExistsCheck (Path ''/'' [''d'', ''latent'', ''a.pt'']),
                  TorchLoad (Path ''/'' [''d'', ''latent'', ''a.pt''])]\<rparr>)"
proof -
  let ?a = "Path ''/'' [''d'', ''a.mp4'']"
  have p: "py_getitem (prompts two_video_dataset) 0 = Inr ''cat''"
    by (simp add: two_video_dataset_def py_getitem_def)
  have v: "py_getitem (videos two_video_dataset) 0 = Inr ?a"
    by (simp add: two_video_dataset_def py_getitem_def)
  have ok: "path_ok ?a" by (simp add: path_ok_def)
  have lp: "latent_path ?a = Path ''/'' [''d'', ''latent'', ''a.pt'']"
    by (simp add: latent_path_def latent_dir_def path_eval split_on.simps)
  have ld: "latent_dir ?a = Path ''/'' [''d'', ''latent'']"
    by (simp add: latent_dir_def path_eval)
  have c: "lookup (files \<lparr>files = with_cache, trace = []\<rparr>) (latent_path ?a)
             = Some (File (SavedTensor stored_latent))"
    by (simp add: lp lookup_def with_cache_def)
  have r: "4 \<le> length (shape stored_latent)" by (simp add: stored_latent_def)
  have f: "fs_ok (files \<lparr>files = with_cache, trace = []\<rparr>)"
    using fs_ok_with_cache by simp
  have s: "shape stored_latent = [1, 1, 1, 2]" by (simp add: stored_latent_def)
  from cache_hit_skips_the_encoder [OF p v ok f c r, of no_decoder None no_decoder, where ?'b = unit]
    p v ok c r fs_ok_with_cache
  show ?thesis by (simp add: lp ld s)
qed

lemma os_mkdir_cases:
  "os_mkdir fs p = Inr fs' \<longleftrightarrow>
     lookup fs p = None \<and> is_dir fs (parent p) \<and> fs' = fs(p \<mapsto> Dir)"
  "os_mkdir fs p = Inl FileNotFoundError \<longleftrightarrow> lookup fs p = None \<and> lookup fs (parent p) = None"
  "os_mkdir fs p = Inl FileExistsError \<longleftrightarrow> lookup fs p \<noteq> None"
  "os_mkdir fs p = Inl NotADirectoryError \<longleftrightarrow> lookup fs p = None \<and> is_file fs (parent p)"
  by (auto simp: os_mkdir_def is_dir_def is_file_def split: option.splits node.splits)

lemma mkdir_parents_is_dir: "mkdir_parents fs p = Inr fs' \<Longrightarrow> is_dir fs' p"
  by (subst (asm) mkdir_parents.simps)
     (auto simp: os_mkdir_cases mkdir_exist_ok_def is_dir_def lookup_def
           split: sum.splits if_splits)

lemma torch_save_result:
  "torch_save fs t q = Inr fs' \<Longrightarrow> fs' = fs(q \<mapsto> File (SavedTensor t))"
  by (auto simp: torch_save_def split: option.splits node.splits)

lemma encode_and_save_files:
  "files (snd (encode_and_save ds ext video q w)) = files w \<or>
   (\<exists>t. files (snd (encode_and_save ds ext video q w)) = (files w)(q \<mapsto> File (SavedTensor t)))"
  by (auto simp: encode_and_save_def Let_def dest: torch_save_result
      split: sum.splits option.splits)

lemma encode_and_save_trace:
  "\<exists>rest. trace (snd (encode_and_save ds ext video q w)) = trace w @ rest"
  by (auto simp: encode_and_save_def Let_def split: sum.splits option.splits)

lemma getitem_world:
  assumes "py_getitem (prompts ds) i = Inr p"
      and "py_getitem (videos ds) i = Inr video"
      and "mkdir_parents (files w) (latent_dir video) = Inr fs1"
  shows "snd (getitem ds ext (IntIndex i :: 'b index) w) =
     (if path_exists fs1 (latent_path video)
      then emit (TorchLoad (latent_path video))
             (emit (ExistsCheck (latent_path video)) (emit (Mkdir (latent_dir video)) w\<lparr>files := fs1\<rparr>))
      else snd (encode_and_save ds ext video (latent_path video)
             (emit (ExistsCheck (latent_path video)) (emit (Mkdir (latent_dir video)) w\<lparr>files := fs1\<rparr>))))"
  using assms
  by (auto simp: getitem_def Let_def split: sum.splits prod.splits)

lemma getitem_out_of_range:
  assumes "i < - int (length (prompts ds)) \<or> int (length (prompts ds)) \<le> i
         \<or> i < - int (length (videos ds)) \<or> int (length (videos ds)) \<le> i"
  shows "getitem ds ext (IntIndex i :: 'b index) w = (Inl IndexError, w)"
proof -
  have "py_getitem (prompts ds) i = Inl IndexError \<or> py_getitem (videos ds) i = Inl IndexError"
    using assms by (auto simp: py_getitem_def)
  moreover have "py_getitem (prompts ds) i = Inl IndexError \<or> (\<exists>p. py_getitem (prompts ds) i = Inr p)"
    by (auto simp: py_getitem_def)
  ultimately show ?thesis
    by (auto simp: getitem_def)
qed

lemma getitem_mkdir_raises:
  assumes "py_getitem (prompts ds) i = Inr p"
      and "py_getitem (videos ds) i = Inr video"
      and "mkdir_parents (files w) (latent_dir video) = Inl e"
  shows "getitem ds ext (IntIndex i :: 'b index) w =
           (Inl e, w\<lparr>trace := trace w @ [Mkdir (latent_dir video)]\<rparr>)"
  using assms by (simp add: getitem_def Let_def emit_def)

lemma getitem_after_mkdir:
  assumes "py_getitem (prompts ds) i = Inr p"
      and "py_getitem (videos ds) i = Inr video"
      and "mkdir_parents (files w) (latent_dir video) = Inr fs1"
  shows "is_dir (files (snd (getitem ds ext (IntIndex i :: 'b index) w))) (latent_dir video)
       \<and> (\<exists>rest. trace (snd (getitem ds ext (IntIndex i :: 'b index) w)) =
                  trace w @ Mkdir (latent_dir video) # ExistsCheck (latent_path video) # rest)"
proof -
  let ?ld = "latent_dir video" and ?lp = "latent_path video"
  have d: "is_dir fs1 ?ld" using assms(3) by (rule mkdir_parents_is_dir)
  let ?w2 = "emit (ExistsCheck ?lp) (emit (Mkdir ?ld) w\<lparr>files := fs1\<rparr>)"
  note gw = getitem_world [OF assms, of ext, where ?'b = 'b]
  have f2: "files ?w2 = fs1" by simp
  have t2: "trace ?w2 = trace w @ [Mkdir ?ld, ExistsCheck ?lp]" by simp
  show ?thesis
  proof (cases "path_exists fs1 ?lp")
    case True
    with gw have "snd (getitem ds ext (IntIndex i :: 'b index) w) = emit (TorchLoad ?lp) ?w2"
      by simp
    with d show ?thesis by simp
  next
    case False
    with gw have g: "snd (getitem ds ext (IntIndex i :: 'b index) w) =
        snd (encode_and_save ds ext video ?lp ?w2)"
      by simp
    from False d have ne: "?lp \<noteq> ?ld"
      by (auto simp: path_exists_def is_dir_def)
    from encode_and_save_files [of ds ext video ?lp ?w2] f2 d ne
    have "is_dir (files (snd (encode_and_save ds ext video ?lp ?w2))) ?ld"
      by (auto simp: is_dir_def lookup_def)
    moreover from encode_and_save_trace [of ds ext video ?lp ?w2] t2
    have "\<exists>rest. trace (snd (encode_and_save ds ext video ?lp ?w2)) =
        trace w @ Mkdir ?ld # ExistsCheck ?lp # rest"
      by auto
    ultimately show ?thesis unfolding g by blast
  qed
qed

text \<open>
  Claim C8, as amended. An integer index out of the range of the prompts or of the videos
  (for a constructed dataset both have the length of the dataset) makes retrieval raise
  \<open>IndexError\<close> with no call made and the file system as it was. When the index names a
  prompt and a video, the first call of retrieval is \<open>mkdir\<close> on the video's \<open>latent\<close>
  directory. If that call raises, retrieval raises the same error and has made no other call.
  If it succeeds, the existence check of the cache entry is the next call, and the directory
  exists when retrieval is over: on a hit, on a miss, and when a later step raises.
\<close>

theorem latent_directory_made_first:
  "((i < - int (length (prompts ds)) \<or> int (length (prompts ds)) \<le> i
      \<or> i < - int (length (videos ds)) \<or> int (length (videos ds)) \<le> i) \<longrightarrow>
      getitem ds ext (IntIndex i :: 'b index) w = (Inl IndexError, w))
   \<and> (py_getitem (prompts ds) i = Inr p \<and> py_getitem (videos ds) i = Inr video \<longrightarrow>
        (\<exists>rest. trace (snd (getitem ds ext (IntIndex i :: 'b index) w)) =
                  trace w @ Mkdir (latent_dir video) # rest)
      \<and> (\<forall>e. mkdir_parents (files w) (latent_dir video) = Inl e \<longrightarrow>
             getitem ds ext (IntIndex i :: 'b index) w =
               (Inl e, w\<lparr>trace := trace w @ [Mkdir (latent_dir video)]\<rparr>))
      \<and> (\<forall>fs1. mkdir_parents (files w) (latent_dir video) = Inr fs1 \<longrightarrow>
             is_dir (files (snd (getitem ds ext (IntIndex i :: 'b index) w))) (latent_dir video)
           \<and> (\<exists>rest. trace (snd (getitem ds ext (IntIndex i :: 'b index) w)) =
                  trace w @ Mkdir (latent_dir video) # ExistsCheck (latent_path video) # rest)))"
proof (intro conjI impI allI)
  assume "i < - int (length (prompts ds)) \<or> int (length (prompts ds)) \<le> i
      \<or> i < - int (length (videos ds)) \<or> int (length (videos ds)) \<le> i"
  then show "getitem ds ext (IntIndex i :: 'b index) w = (Inl IndexError, w)"
    by (rule getitem_out_of_range)
next
  assume a: "py_getitem (prompts ds) i = Inr p \<and> py_getitem (videos ds) i = Inr video"
  show "\<exists>rest. trace (snd (getitem ds ext (IntIndex i :: 'b index) w)) =
                  trace w @ Mkdir (latent_dir video) # rest"
  proof (cases "mkdir_parents (files w) (latent_dir video)")
    case (Inl e)
    with a have "getitem ds ext (IntIndex i :: 'b index) w =
        (Inl e, w\<lparr>trace := trace w @ [Mkdir (latent_dir video)]\<rparr>)"
      by (intro getitem_mkdir_raises) simp_all
    then show ?thesis by simp
  next
    case (Inr fs1)
    with a getitem_after_mkdir [of ds i p video w fs1 ext, where ?'b = 'b]
    show ?thesis by auto
  qed
next
  fix e
  assume "py_getitem (prompts ds) i = Inr p \<and> py_getitem (videos ds) i = Inr video"
    and "mkdir_parents (files w) (latent_dir video) = Inl e"
  then show "getitem ds ext (IntIndex i :: 'b index) w =
               (Inl e, w\<lparr>trace := trace w @ [Mkdir (latent_dir video)]\<rparr>)"
    by (intro getitem_mkdir_raises) simp_all
next
  fix fs1
  assume a: "py_getitem (prompts ds) i = Inr p \<and> py_getitem (videos ds) i = Inr video"
    and m: "mkdir_parents (files w) (latent_dir video) = Inr fs1"
  from a m getitem_after_mkdir [of ds i p video w fs1 ext, where ?'b = 'b]
  show "is_dir (files (snd (getitem ds ext (IntIndex i :: 'b index) w))) (latent_dir video)"
    by simp
  from a m getitem_after_mkdir [of ds i p video w fs1 ext, where ?'b = 'b]
  show "\<exists>rest. trace (snd (getitem ds ext (IntIndex i :: 'b index) w)) =
                  trace w @ Mkdir (latent_dir video) # ExistsCheck (latent_path video) # rest"
    by simp
qed

lemma latent_dir_a: "latent_dir (Path ''/'' [''d'', ''a.mp4'']) = Path ''/'' [''d'', ''latent'']"
  by (simp add: latent_dir_eq)

lemma latent_dir_b: "latent_dir (Path ''/'' [''d'', ''b.mp4'']) = Path ''/'' [''d'', ''latent'']"
  by (simp add: latent_dir_eq)

theorem latent_directory_made_first_witness:
  "py_getitem (prompts two_video_dataset) (- 1) = Inr ''dog''
   \<and> py_getitem (videos two_video_dataset) (- 1) = Inr (Path ''/'' [''d'', ''b.mp4''])
   \<and> mkdir_parents two_videos (latent_dir (Path ''/'' [''d'', ''b.mp4''])) =
       Inr (two_videos(Path ''/'' [''d'', ''latent''] \<mapsto> Dir))
   \<and> \<not> is_dir two_videos (Path ''/'' [''d'', ''latent''])
   \<and> is_dir (files (snd (getitem two_video_dataset no_decoder (IntIndex (- 1) :: unit index)
                            \<lparr>files = two_videos, trace = []\<rparr>)))
        (Path ''/'' [''d'', ''latent''])
   \<and> getitem two_video_dataset no_decoder (IntIndex 2 :: unit index)
        \<lparr>files = two_videos, trace = []\<rparr> =
       (Inl IndexError, \<lparr>files = two_videos, trace = []\<rparr>)"
proof -
  let ?b = "Path ''/'' [''d'', ''b.mp4'']"
  let ?l = "Path ''/'' [''d'', ''latent'']"
  let ?w = "\<lparr>files = two_videos, trace = []\<rparr>"
  have p: "py_getitem (prompts two_video_dataset) (- 1) = Inr ''dog''"
    by (simp add: two_video_dataset_def py_getitem_def)
  have v: "py_getitem (videos two_video_dataset) (- 1) = Inr ?b"
    by (simp add: two_video_dataset_def py_getitem_def)
  have m0: "mkdir_parents two_videos (latent_dir ?b) = Inr (two_videos(?l \<mapsto> Dir))"
    unfolding latent_dir_b
    by (rule mkdir_parents_creates) (simp_all add: two_videos_def fs_eval parent_def)
  have m: "mkdir_parents (files ?w) (latent_dir ?b) = Inr (two_videos(?l \<mapsto> Dir))"
    using m0 by simp
  have a: "\<not> is_dir two_videos ?l"
    by (simp add: two_videos_def is_dir_def lookup_def)
  have r: "int (length (prompts two_video_dataset)) \<le> 2"
    by (simp add: two_video_dataset_def)
  note t = latent_directory_made_first [of _ two_video_dataset no_decoder ?w _ _, where ?'b = unit]
  from t [of "- 1" "''dog''" ?b] p v m
  have d: "is_dir (files (snd (getitem two_video_dataset no_decoder (IntIndex (- 1) :: unit index) ?w)))
          (latent_dir ?b)"
    by blast
  from t [of 2 "''dog''" ?b] r
  have o: "getitem two_video_dataset no_decoder (IntIndex 2 :: unit index) ?w = (Inl IndexError, ?w)"
    by blast
  from p v m0 a d o show ?thesis by (simp add: latent_dir_b)
qed

text \<open>
  The claim as stated, for every non-list index and every retrieval, fails twice. With a
  regular file named \<open>latent\<close> beside the video, \<open>mkdir\<close> raises \<open>FileExistsError\<close> and
  there is no such directory afterwards. With an index out of range, retrieval raises
  \<open>IndexError\<close> before any file system call.
\<close>

theorem latent_directory_not_always_made:
  "construct (NewWithResize 49 480 720) no_decoder latent_is_a_file ''/d'' ''c.txt'' ''v.txt'' None None
     = Inr two_video_dataset
   \<and> getitem two_video_dataset no_decoder (IntIndex 0 :: unit index)
        \<lparr>files = latent_is_a_file, trace = []\<rparr> =
       (Inl FileExistsError,
        \<lparr>files = latent_is_a_file, trace = [Mkdir (Path ''/'' [''d'', ''latent''])]\<rparr>)
   \<and> \<not> is_dir latent_is_a_file (latent_dir (Path ''/'' [''d'', ''a.mp4'']))
   \<and> construct (NewWithResize 49 480 720) no_decoder two_videos ''/d'' ''c.txt'' ''v.txt'' None None
     = Inr two_video_dataset
   \<and> getitem two_video_dataset no_decoder (IntIndex 5 :: unit index)
        \<lparr>files = two_videos, trace = []\<rparr> =
       (Inl IndexError, \<lparr>files = two_videos, trace = []\<rparr>)
   \<and> \<not> is_dir two_videos (Path ''/'' [''d'', ''latent''])"
proof -
  let ?a = "Path ''/'' [''d'', ''a.mp4'']" and ?b = "Path ''/'' [''d'', ''b.mp4'']"
  let ?l = "Path ''/'' [''d'', ''latent'']"
  have lp: "load_prompts no_decoder latent_is_a_file (joinstr (path_of_str ''/d'') ''c.txt'')
      = Inr [''cat'', ''dog'']"
    by (simp add: loader_eval path_eval fs_eval latent_is_a_file_def two_videos_def)
  have lv: "load_videos no_decoder latent_is_a_file (joinstr (path_of_str ''/d'') ''v.txt'')
      = Inr [?a, ?b]"
    by (simp add: loader_eval path_eval fs_eval latent_is_a_file_def two_videos_def)
  have fl: "is_file latent_is_a_file ?a \<and> is_file latent_is_a_file ?b"
    by (simp add: fs_eval latent_is_a_file_def two_videos_def)
  have c1: "construct (NewWithResize 49 480 720) no_decoder latent_is_a_file ''/d'' ''c.txt'' ''v.txt''
      None None = Inr two_video_dataset"
    using fl by (simp add: construct_def T2VDatasetWithResize_init_def base_init_eq [OF lp lv]
        two_video_dataset_def)
  have lp2: "load_prompts no_decoder two_videos (joinstr (path_of_str ''/d'') ''c.txt'')
      = Inr [''cat'', ''dog'']"
    by (simp add: loader_eval path_eval fs_eval two_videos_def)
  have lv2: "load_videos no_decoder two_videos (joinstr (path_of_str ''/d'') ''v.txt'')
      = Inr [?a, ?b]"
    by (simp add: loader_eval path_eval fs_eval two_videos_def)
  have fl2: "is_file two_videos ?a \<and> is_file two_videos ?b"
    by (simp add: fs_eval two_videos_def)
  have c2: "construct (NewWithResize 49 480 720) no_decoder two_videos ''/d'' ''c.txt'' ''v.txt''
      None None = Inr two_video_dataset"
    using fl2 by (simp add: construct_def T2VDatasetWithResize_init_def base_init_eq [OF lp2 lv2]
        two_video_dataset_def)
  have lk: "lookup latent_is_a_file ?l = Some (File (RawBytes ''x''))"
    by (simp add: lookup_def latent_is_a_file_def)
  have nd: "\<not> is_dir latent_is_a_file ?l"
    by (simp add: is_dir_def lk)
  have om: "os_mkdir latent_is_a_file ?l = Inl FileExistsError"
    by (simp add: os_mkdir_def lk)
  have m: "mkdir_parents latent_is_a_file ?l = Inl FileExistsError"
    by (subst mkdir_parents.simps) (simp add: om nd)
  have g1: "getitem two_video_dataset no_decoder (IntIndex 0 :: unit index)
        \<lparr>files = latent_is_a_file, trace = []\<rparr> =
       (Inl FileExistsError, \<lparr>files = latent_is_a_file, trace = [Mkdir ?l]\<rparr>)"
    by (simp add: getitem_def two_video_dataset_def py_getitem_def latent_dir_a m emit_def)
  have g2: "getitem two_video_dataset no_decoder (IntIndex 5 :: unit index)
        \<lparr>files = two_videos, trace = []\<rparr> = (Inl IndexError, \<lparr>files = two_videos, trace = []\<rparr>)"
    by (simp add: getitem_def two_video_dataset_def py_getitem_def)
  have nd2: "\<not> is_dir two_videos ?l"
    by (simp add: two_videos_def is_dir_def lookup_def)
  from c1 g1 nd c2 g2 nd2 show ?thesis by (simp add: latent_dir_a)
qed

section \<open>Floating-point rounding and the working buckets\<close>

lemma pow2_powi: "pow2 e = 2 powi e"
proof (cases "0 \<le> e")
  case True
  then show ?thesis by (simp add: pow2_def power_int_def)
next
  case False
  have "inverse (2::rat) ^ nat (- e) = 1 / 2 ^ nat (- e)"
    by (simp add: inverse_eq_divide power_one_over)
  with False show ?thesis by (simp add: pow2_def power_int_def)
qed

lemma pow2_add: "pow2 (x + y) = pow2 x * pow2 y"
  by (simp add: pow2_powi power_int_add)

lemma pow2_pos: "0 < pow2 e"
  by (simp add: pow2_powi)

lemma pow2_mono: "x \<le> y \<Longrightarrow> pow2 x \<le> pow2 y"
  by (simp add: pow2_powi power_int_increasing)

lemma pow2_strict_mono: "x < y \<Longrightarrow> pow2 x < pow2 y"
  by (simp add: pow2_powi power_int_strict_increasing)

lemma pow2_nat: "pow2 (int n) = 2 ^ n"
  by (simp add: pow2_def)

lemma pow2_less_imp: "pow2 x < pow2 y \<Longrightarrow> x < y"
  using pow2_mono [of y x] by (cases "x < y") auto

lemma bit_length_0: "bit_length 0 = 0"
  by (subst bit_length.simps) simp

lemma bit_length_step: "0 < n \<Longrightarrow> bit_length n = Suc (bit_length (n div 2))"
  by (subst bit_length.simps) simp

lemma bit_length_pos: "0 < n \<Longrightarrow> 0 < bit_length n"
  by (simp add: bit_length_step)

lemma bit_length_upper: "n < 2 ^ bit_length n"
proof (induction n rule: bit_length.induct)
  case (1 n)
  show ?case
  proof (cases "n = 0")
    case True
    then show ?thesis by (simp add: bit_length_0)
  next
    case False
    with 1 have "n div 2 < 2 ^ bit_length (n div 2)" by simp
    then have "n < 2 * 2 ^ bit_length (n div 2)" by linarith
    with False show ?thesis by (simp add: bit_length_step)
  qed
qed

lemma bit_length_lower: "0 < n \<Longrightarrow> 2 ^ (bit_length n - 1) \<le> n"
proof (induction n rule: bit_length.induct)
  case (1 n)
  from "1.prems" have bl: "bit_length n = Suc (bit_length (n div 2))"
    by (rule bit_length_step)
  show ?case
  proof (cases "n div 2 = 0")
    case True
    with "1.prems" show ?thesis by (simp add: bl bit_length_0)
  next
    case False
    with "1.IH" "1.prems" have ih: "2 ^ (bit_length (n div 2) - 1) \<le> n div 2" by simp
    from False have "0 < bit_length (n div 2)" by (simp add: bit_length_pos)
    then have "bit_length (n div 2) = Suc (bit_length (n div 2) - 1)" by simp
    then have "(2::nat) ^ bit_length (n div 2) = 2 * 2 ^ (bit_length (n div 2) - 1)"
      by (metis power_Suc)
    also have "\<dots> \<le> 2 * (n div 2)" using ih by simp
    also have "\<dots> \<le> n" by simp
    finally show ?thesis by (simp add: bl)
  qed
qed

lemma bit_length_pow2_bounds:
  assumes "0 < n"
  shows "pow2 (int (bit_length n) - 1) \<le> of_nat n" and "of_nat n < pow2 (int (bit_length n))"
proof -
  obtain m where m: "bit_length n = Suc m"
    using bit_length_pos [OF assms] by (cases "bit_length n") auto
  have "(of_nat (2 ^ m) :: rat) \<le> of_nat n"
    using bit_length_lower [OF assms] unfolding m by (simp only: of_nat_le_iff diff_Suc_1)
  then have "(2::rat) ^ m \<le> of_nat n" by simp
  moreover have "pow2 (int (bit_length n) - 1) = 2 ^ m"
    unfolding m using pow2_nat [of m] by simp
  ultimately show "pow2 (int (bit_length n) - 1) \<le> of_nat n" by simp
  have "(of_nat n :: rat) < of_nat (2 ^ bit_length n)"
    using bit_length_upper [of n] by (simp only: of_nat_less_iff)
  then show "of_nat n < pow2 (int (bit_length n))"
    by (simp add: pow2_nat)
qed

lemma pow2_neg: "pow2 (- k) = 1 / pow2 k"
proof -
  have "pow2 (- k) * pow2 k = 1" using pow2_add [of "- k" k] by (simp add: pow2_def)
  then show ?thesis using pow2_pos [of k] by (simp add: eq_divide_eq)
qed

lemma ilog2_bounds:
  assumes "0 < y"
  shows "pow2 (ilog2 y) \<le> y" and "y < pow2 (ilog2 y + 1)"
proof -
  have both: "pow2 (ilog2 y) \<le> y \<and> y < pow2 (ilog2 y + 1)"
  proof (cases "1 \<le> y")
    case True
    define n where "n = nat \<lfloor>y\<rfloor>"
    from True have f1: "1 \<le> \<lfloor>y\<rfloor>" by (simp add: le_floor_iff)
    then have npos: "0 < n" by (simp add: n_def)
    have nf: "(of_nat n :: rat) = of_int \<lfloor>y\<rfloor>" using f1 by (simp add: n_def)
    have e: "ilog2 y = int (bit_length n) - 1" using True by (simp add: ilog2_def n_def)
    have "pow2 (int (bit_length n) - 1) \<le> of_nat n"
      by (rule bit_length_pow2_bounds(1) [OF npos])
    also have "\<dots> \<le> y" unfolding nf by simp
    finally have lo: "pow2 (ilog2 y) \<le> y" unfolding e .
    have "Suc n \<le> 2 ^ bit_length n" using bit_length_upper [of n] by simp
    then have "(of_nat (Suc n) :: rat) \<le> of_nat (2 ^ bit_length n)"
      by (simp only: of_nat_le_iff)
    then have "(of_nat n :: rat) + 1 \<le> pow2 (int (bit_length n))"
      by (simp add: pow2_nat)
    moreover have "y < of_nat n + 1" unfolding nf by linarith
    ultimately have "y < pow2 (int (bit_length n))" by linarith
    then have hi: "y < pow2 (ilog2 y + 1)" unfolding e by simp
    from lo hi show ?thesis by blast
  next
    case False
    define z where "z = 1 / y"
    define n where "n = nat (\<lceil>z\<rceil> - 1)"
    define k where "k = int (bit_length n)"
    from False assms have z1: "1 < z" by (simp add: z_def)
    then have c2: "2 \<le> \<lceil>z\<rceil>" by (simp add: le_ceiling_iff)
    then have npos: "0 < n" by (simp add: n_def)
    have nc: "(of_nat n :: rat) = of_int \<lceil>z\<rceil> - 1" using c2 by (simp add: n_def)
    have e: "ilog2 y = - k" using False by (simp add: ilog2_def n_def z_def k_def)
    have zle: "z \<le> of_nat n + 1" unfolding nc by (simp add: le_of_int_ceiling)
    have zgt: "of_nat n < z" unfolding nc by linarith
    have "Suc n \<le> 2 ^ bit_length n" using bit_length_upper [of n] by simp
    then have "(of_nat (Suc n) :: rat) \<le> of_nat (2 ^ bit_length n)"
      by (simp only: of_nat_le_iff)
    then have "(of_nat n :: rat) + 1 \<le> pow2 k"
      by (simp add: pow2_nat k_def)
    with zle have "z \<le> pow2 k" by linarith
    then have "1 / pow2 k \<le> y"
      using assms pow2_pos [of k] by (simp add: z_def field_simps)
    then have lo: "pow2 (ilog2 y) \<le> y" unfolding e pow2_neg .
    have "pow2 (k - 1) \<le> of_nat n"
      unfolding k_def by (rule bit_length_pow2_bounds(1) [OF npos])
    with zgt have "pow2 (k - 1) < z" by linarith
    then have "y < 1 / pow2 (k - 1)"
      using assms pow2_pos [of "k - 1"] by (simp add: z_def field_simps)
    then have "y < pow2 (- (k - 1))" unfolding pow2_neg .
    then have hi: "y < pow2 (ilog2 y + 1)" unfolding e by simp
    from lo hi show ?thesis by blast
  qed
  from both show "pow2 (ilog2 y) \<le> y" by blast
  from both show "y < pow2 (ilog2 y + 1)" by blast
qed

lemma round_half_even_ge: "of_int n \<le> y \<Longrightarrow> n \<le> round_half_even y"
proof -
  assume "of_int n \<le> y"
  then have "n \<le> \<lfloor>y\<rfloor>" by (simp add: le_floor_iff)
  then show ?thesis by (simp add: round_half_even_def Let_def)
qed

lemma round_half_even_le: "y \<le> of_int n \<Longrightarrow> round_half_even y \<le> n"
proof -
  assume a: "y \<le> of_int n"
  show ?thesis
  proof (cases "y = of_int n")
    case True
    then show ?thesis by (simp add: round_half_even_def Let_def)
  next
    case False
    with a have "y < of_int n" by simp
    then have "\<lfloor>y\<rfloor> < n" by (simp add: floor_less_iff)
    then show ?thesis by (simp add: round_half_even_def Let_def)
  qed
qed

lemma round_half_even_less: "y < of_int n - 1 / 2 \<Longrightarrow> round_half_even y < n"
proof -
  assume a: "y < of_int n - 1 / 2"
  then have "y < of_int n" by simp
  then have f: "\<lfloor>y\<rfloor> < n" by (simp add: floor_less_iff)
  show ?thesis
  proof (cases "\<lfloor>y\<rfloor> = n - 1")
    case True
    then have "of_int \<lfloor>y\<rfloor> = (of_int n :: rat) - 1" by simp
    with a have "y - of_int \<lfloor>y\<rfloor> < 1 / 2" by simp
    with f show ?thesis by (simp add: round_half_even_def Let_def)
  next
    case False
    with f have "\<lfloor>y\<rfloor> + 1 < n" by simp
    then show ?thesis by (simp add: round_half_even_def Let_def)
  qed
qed


lemma round_double_nonneg_floor:
  assumes "0 < a" "a < 2 ^ 53" "0 < b"
  shows "\<exists>m N. 0 < N \<and> round_double (of_int a / of_int b) = of_int m / of_int N
           \<and> (a div b) * N \<le> m \<and> m < (a div b + 1) * N"
proof -
  define x :: rat where "x = of_int a / of_int b"
  define e0 where "e0 = ilog2 x"
  define e where "e = max e0 (- 1022)"
  define k where "k = a div b"
  have bpos: "(0::rat) < of_int b" using assms(3) by simp
  have apos: "(0::rat) < of_int a" using assms(1) by simp
  have xpos: "0 < x" using apos bpos by (simp add: x_def)
  have xb: "x * of_int b = of_int a" using bpos by (simp add: x_def)
  have x_lower: "pow2 e0 \<le> x"
    unfolding e0_def by (rule ilog2_bounds(1) [OF xpos])
  have x_upper: "x < pow2 (e0 + 1)"
    unfolding e0_def by (rule ilog2_bounds(2) [OF xpos])
  have a53: "(of_int a :: rat) < pow2 53"
  proof -
    have "(of_int a :: rat) < of_int (2 ^ 53)" using assms(2) by (simp only: of_int_less_iff)
    moreover have "pow2 53 = 2 ^ 53" using pow2_nat [of 53] by simp
    ultimately show ?thesis by simp
  qed
  have "x * 1 \<le> x * of_int b"
    using assms(3) xpos by (intro mult_left_mono) simp_all
  then have "x \<le> of_int a" unfolding xb by simp
  with x_lower a53 have "pow2 e0 < pow2 53" by linarith
  then have e0_le: "e0 \<le> 52" using pow2_less_imp [of e0 53] by simp
  then have e_le: "e \<le> 52" by (simp add: e_def)
  define N :: int where "N = 2 ^ nat (52 - e)"
  have Npos: "0 < N" by (simp add: N_def)
  have N_pow2: "(of_int N :: rat) = pow2 (52 - e)"
    using e_le by (simp add: N_def pow2_def)
  have "pow2 (e - 52) * pow2 (52 - e) = 1"
    using pow2_add [of "e - 52" "52 - e"] by (simp add: pow2_def)
  then have ulp: "pow2 (e - 52) = 1 / of_int N"
    using pow2_pos [of "52 - e"] by (simp add: N_pow2 eq_divide_eq)
  define m where "m = round_half_even (x * of_int N)"
  have "round_double x =
      of_int (round_half_even (x / pow2 (e - 52))) * pow2 (e - 52)"
    using xpos
    by (simp add: round_double_def round_nearest_even_def Let_def e_def e0_def)
  then have rd: "round_double x = of_int m / of_int N"
    unfolding ulp m_def by simp
  have kfloor: "k = \<lfloor>x\<rfloor>"
    unfolding k_def x_def by (simp add: floor_divide_of_int_eq)
  then have k_le: "of_int k \<le> x" by simp
  have gap: "x \<le> of_int (k + 1) - 1 / of_int b"
  proof -
    have "a = k * b + a mod b" by (simp add: k_def)
    moreover have "a mod b \<le> b - 1" using assms(3) by simp
    ultimately have "a \<le> k * b + b - 1" by linarith
    then have "(of_int a :: rat) \<le> of_int (k * b + b - 1)" by (simp only: of_int_le_iff)
    moreover have "(of_int (k + 1) - 1 / of_int b) * (of_int b :: rat) = of_int (k * b + b - 1)"
      using bpos by (simp add: left_diff_distrib distrib_right)
    ultimately have "(of_int a :: rat) \<le> (of_int (k + 1) - 1 / of_int b) * of_int b"
      by simp
    then show ?thesis using bpos by (simp add: x_def pos_divide_le_eq)
  qed
  have lower: "k * N \<le> m"
  proof -
    have "of_int (k * N) \<le> x * (of_int N :: rat)"
      using k_le Npos by (simp add: mult_right_mono)
    then show ?thesis unfolding m_def by (rule round_half_even_ge)
  qed
  have kpos: "0 \<le> k" using assms(1,3) by (simp add: k_def pos_imp_zdiv_nonneg_iff)
  have upper: "m < (k + 1) * N"
  proof (cases "pow2 e \<le> x")
    case True
    have "pow2 e * of_int b \<le> of_int a"
      using True bpos by (simp add: x_def pos_le_divide_eq)
    with a53 have "pow2 e * of_int b < pow2 53" by simp
    also have "pow2 53 = pow2 e * (2 * of_int N)"
    proof -
      have "pow2 53 = pow2 (e + (1 + (52 - e)))" by simp
      also have "\<dots> = pow2 e * (pow2 1 * pow2 (52 - e))"
        by (simp only: pow2_add)
      also have "pow2 1 = 2" by (simp add: pow2_def)
      finally show ?thesis by (simp add: N_pow2)
    qed
    finally have b_small: "of_int b < 2 * (of_int N :: rat)"
      using pow2_pos [of e] by simp
    define B :: rat where "B = of_int N / of_int b"
    have h1: "1 / 2 < B"
      using b_small bpos unfolding B_def by (simp add: pos_less_divide_eq)
    have "x * of_int N \<le> (of_int (k + 1) - 1 / of_int b) * of_int N"
      using gap Npos by (simp add: mult_right_mono)
    also have "\<dots> = of_int ((k + 1) * N) - B"
      unfolding B_def by (simp add: left_diff_distrib)
    finally have "x * of_int N < of_int ((k + 1) * N) - 1 / 2"
      using h1 by linarith
    then show ?thesis unfolding m_def by (rule round_half_even_less)
  next
    case False
    with x_lower have "e \<noteq> e0" by auto
    then have e: "e = - 1022" by (auto simp: e_def max_def split: if_splits)
    from False have "x * of_int N < pow2 e * of_int N"
      using Npos by (simp add: mult_strict_right_mono)
    also have "pow2 e * of_int N = pow2 52"
      unfolding N_pow2 using pow2_add [of e "52 - e"] by simp
    also have "pow2 52 = of_int (2 ^ 52)" using pow2_nat [of 52] by simp
    finally have "m \<le> 2 ^ 52"
      unfolding m_def by (intro round_half_even_le) simp
    moreover have "(2::int) ^ 52 < 2 ^ 1074" by simp
    moreover have "N = 2 ^ 1074" by (simp add: N_def e)
    moreover have "N \<le> (k + 1) * N" using kpos Npos by (simp add: mult_le_cancel_right1)
    ultimately show ?thesis by linarith
  qed
  from Npos rd lower upper show ?thesis unfolding k_def x_def by blast
qed


lemma truediv_floor:
  assumes "0 \<le> a" "a < 2 ^ 53" "0 < b"
  shows "\<exists>r. py_truediv a b = Inr r \<and> py_int r = a div b"
proof (cases "a = 0")
  case True
  have "\<not> pow2 1024 \<le> 0" using pow2_pos [of 1024] by simp
  with True assms(3) have "py_truediv a b = Inr 0"
    by (simp add: py_truediv_def round_double_def round_nearest_even_def)
  moreover have "py_int 0 = a div b" using True by (simp add: py_int_def)
  ultimately show ?thesis by blast
next
  case False
  with assms(1) have "0 < a" by simp
  from round_double_nonneg_floor [OF this assms(2,3)] obtain m N where
    h: "0 < N" "round_double (of_int a / of_int b) = of_int m / of_int N"
       "(a div b) * N \<le> m" "m < (a div b + 1) * N"
    by blast
  let ?k = "a div b"
  have kpos: "0 \<le> ?k" using assms(1,3) by (simp add: pos_imp_zdiv_nonneg_iff)
  have mdiv: "m div N = ?k"
  proof (rule int_div_pos_eq)
    show "m = N * ?k + (m - ?k * N)" by (simp add: mult.commute)
    show "0 \<le> m - ?k * N" using h(3) by simp
    show "m - ?k * N < N" using h(4) by (simp add: distrib_right)
  qed
  have fl: "\<lfloor>round_double (of_int a / of_int b)\<rfloor> = ?k"
    unfolding h(2) using mdiv by (simp add: floor_divide_of_int_eq)
  have "0 \<le> m" using h(1,3) kpos
    by (meson mult_nonneg_nonneg order_less_imp_le order_trans)
  then have nonneg: "0 \<le> round_double (of_int a / of_int b)"
    unfolding h(2) using h(1) by simp
  have "round_double (of_int a / of_int b) < of_int (?k + 1)"
    using fl by linarith
  moreover have "?k \<le> a"
  proof -
    have "?k * 1 \<le> ?k * b" using kpos assms(3) by (intro mult_left_mono) simp_all
    moreover have "a = ?k * b + a mod b" by simp
    moreover have "0 \<le> a mod b" using assms(3) by simp
    ultimately show ?thesis by linarith
  qed
  then have "?k + 1 \<le> 2 ^ 53" using assms(2) by linarith
  then have "(of_int (?k + 1) :: rat) \<le> of_int (2 ^ 53)" by (simp only: of_int_le_iff)
  moreover have "(of_int (2 ^ 53) :: rat) = pow2 53" using pow2_nat [of 53] by simp
  moreover have "pow2 53 \<le> pow2 1024" by (rule pow2_mono) simp
  ultimately have "round_double (of_int a / of_int b) < pow2 1024" by linarith
  with nonneg have "\<not> pow2 1024 \<le> \<bar>round_double (of_int a / of_int b)\<bar>" by simp
  with assms(3) have "py_truediv a b = Inr (round_double (of_int a / of_int b))"
    by (simp add: py_truediv_def)
  moreover have "py_int (round_double (of_int a / of_int b)) = ?k"
    using nonneg fl by (simp add: py_int_def)
  ultimately show ?thesis by blast
qed

lemma compress_bucket_floor:
  assumes "0 < rt" "0 < rh" "0 < rw"
      and "natural_size b0" "natural_size b1" "natural_size b2"
  shows "compress_bucket rt rh rw (b0, b1, b2) = Inr (b0 div rt, b1 div rh, b2 div rw)"
proof -
  from truediv_floor [of b0 rt] assms obtain q0 where
    q0: "py_truediv b0 rt = Inr q0" "py_int q0 = b0 div rt"
    by (auto simp: natural_size_def)
  from truediv_floor [of b1 rh] assms obtain q1 where
    q1: "py_truediv b1 rh = Inr q1" "py_int q1 = b1 div rh"
    by (auto simp: natural_size_def)
  from truediv_floor [of b2 rw] assms obtain q2 where
    q2: "py_truediv b2 rw = Inr q2" "py_int q2 = b2 div rw"
    by (auto simp: natural_size_def)
  show ?thesis by (simp add: compress_bucket_def q0 q1 q2)
qed

lemma compress_buckets_floor:
  assumes "0 < rt" "0 < rh" "0 < rw"
      and "list_all (\<lambda>(f, h, w). natural_size f \<and> natural_size h \<and> natural_size w) bs"
  shows "compress_buckets rt rh rw bs =
         Inr (map (\<lambda>(f, h, w). (f div rt, h div rh, w div rw)) bs)"
  using assms(4)
proof (induction bs)
  case Nil
  then show ?case by simp
next
  case (Cons b bs)
  obtain f h w where b: "b = (f, h, w)" by (cases b) auto
  with Cons.prems have "compress_bucket rt rh rw b = Inr (f div rt, h div rh, w div rw)"
    using assms(1-3) by (simp add: compress_bucket_floor)
  moreover from Cons have "compress_buckets rt rh rw bs =
         Inr (map (\<lambda>(f, h, w). (f div rt, h div rh, w div rw)) bs)" by simp
  ultimately show ?case by (simp add: b)
qed

text \<open>
  Claim C1, as amended. When the base construction succeeds, the three compression ratios
  are positive and every dimension of every raw bucket is at least 0 and below \<open>2^53\<close>, the
  bucket constructor succeeds and its working buckets are, bucket by bucket and dimension by
  dimension, the floor of the raw dimension divided by its ratio.
\<close>

theorem working_buckets_floor_of_natural_sizes:
  assumes "BaseT2VDataset_init ext fs data_root caption_column video_column dv enc = Inr ds"
      and "0 < rt" and "0 < rh" and "0 < rw"
      and "list_all (\<lambda>(f, h, w). natural_size f \<and> natural_size h \<and> natural_size w) buckets"
  shows "T2VDatasetWithBuckets_init ext fs buckets rt rh rw data_root caption_column video_column
           dv enc =
         Inr (ds\<lparr>kind := WithBuckets (map (\<lambda>(f, h, w). (f div rt, h div rh, w div rw)) buckets)\<rparr>)"
  using assms(1) compress_buckets_floor [OF assms(2-5)]
  by (simp add: T2VDatasetWithBuckets_init_def)


lemma floor_rat_numeral:
  "\<lfloor>numeral a / numeral b :: rat\<rfloor> = numeral a div numeral b"
  using floor_divide_of_int_eq [of "numeral a" "numeral b", where ?'a = rat] by simp

lemma floor_rat_minus_numeral:
  "\<lfloor>- (numeral a / numeral b) :: rat\<rfloor> = - numeral a div numeral b"
  using floor_divide_of_int_eq [of "- numeral a" "numeral b", where ?'a = rat] by simp

lemmas float_eval =
  round_double_def round_single_def round_nearest_even_def ilog2_def bit_length.simps pow2_def
  round_half_even_def Let_def py_truediv_def py_int_def ceiling_def
  floor_rat_numeral floor_rat_minus_numeral

lemma base_two_videos:
  "BaseT2VDataset_init no_decoder two_videos ''/d'' ''c.txt'' ''v.txt'' None None =
     Inr (two_video_dataset\<lparr>kind := Base\<rparr>)"
proof -
  let ?a = "Path ''/'' [''d'', ''a.mp4'']" and ?b = "Path ''/'' [''d'', ''b.mp4'']"
  have lp: "load_prompts no_decoder two_videos (joinstr (path_of_str ''/d'') ''c.txt'')
      = Inr [''cat'', ''dog'']"
    by (simp add: loader_eval path_eval fs_eval two_videos_def)
  have lv: "load_videos no_decoder two_videos (joinstr (path_of_str ''/d'') ''v.txt'')
      = Inr [?a, ?b]"
    by (simp add: loader_eval path_eval fs_eval two_videos_def)
  have fl: "is_file two_videos ?a \<and> is_file two_videos ?b"
    by (simp add: fs_eval two_videos_def)
  then show ?thesis
    by (simp add: base_init_eq [OF lp lv] two_video_dataset_def)
qed

lemma div_480_8: "py_truediv 480 8 = Inr 60"
  by (simp add: float_eval)

lemma div_720_8: "py_truediv 720 8 = Inr 90"
  by (simp add: float_eval)

lemma int_60_90: "py_int 60 = 60" "py_int 90 = 90"
  by (simp_all add: py_int_def)

theorem working_buckets_floor_of_natural_sizes_witness:
  "BaseT2VDataset_init no_decoder two_videos ''/d'' ''c.txt'' ''v.txt'' None None =
     Inr (two_video_dataset\<lparr>kind := Base\<rparr>)
   \<and> list_all (\<lambda>(f, h, w). natural_size f \<and> natural_size h \<and> natural_size w) [(49, 480, 720)]
   \<and> T2VDatasetWithBuckets_init no_decoder two_videos [(49, 480, 720)] 4 8 8
         ''/d'' ''c.txt'' ''v.txt'' None None =
       Inr (two_video_dataset\<lparr>kind := WithBuckets [(12, 60, 90)]\<rparr>)"
proof -
  have n: "list_all (\<lambda>(f, h, w). natural_size f \<and> natural_size h \<and> natural_size w)
             [(49, 480, 720)]"
    by (simp add: natural_size_def)
  have r: "(0::int) < 4" "(0::int) < 8" by simp_all
  from working_buckets_floor_of_natural_sizes [OF base_two_videos r(1) r(2) r(2) n]
  have "T2VDatasetWithBuckets_init no_decoder two_videos [(49, 480, 720)] 4 8 8
         ''/d'' ''c.txt'' ''v.txt'' None None =
       Inr (two_video_dataset\<lparr>kind := WithBuckets [(12, 60, 90)]\<rparr>)"
    by simp
  with base_two_videos n show ?thesis by simp
qed

lemma working_buckets_negative_size:
  "T2VDatasetWithBuckets_init no_decoder two_videos [(- 7, 480, 720)] 2 8 8
      ''/d'' ''c.txt'' ''v.txt'' None None =
     Inr (two_video_dataset\<lparr>kind := WithBuckets [(- 3, 60, 90)]\<rparr>)"
proof -
  have d: "py_truediv (- 7) 2 = Inr (- (7 / 2))"
    by (simp add: float_eval)
  have i: "py_int (- (7 / 2)) = - 3"
    by (simp add: float_eval)
  have "compress_bucket 2 8 8 (- 7, 480, 720) = Inr (- 3, 60, 90)"
    by (simp add: compress_bucket_def d i div_480_8 div_720_8 int_60_90)
  then have cb: "compress_buckets 2 8 8 [(- 7, 480, 720)] = Inr [(- 3, 60, 90)]"
    by simp
  show ?thesis
    unfolding T2VDatasetWithBuckets_init_def base_two_videos cb by simp
qed

lemma working_buckets_large_size:
  "T2VDatasetWithBuckets_init no_decoder two_videos [(9007199254740993, 480, 720)] 1 8 8
      ''/d'' ''c.txt'' ''v.txt'' None None =
     Inr (two_video_dataset\<lparr>kind := WithBuckets [(9007199254740992, 60, 90)]\<rparr>)"
proof -
  have d: "py_truediv 9007199254740993 1 = Inr 9007199254740992"
    by (simp add: float_eval)
  have i: "py_int 9007199254740992 = 9007199254740992"
    by (simp add: py_int_def)
  have "compress_bucket 1 8 8 (9007199254740993, 480, 720) = Inr (9007199254740992, 60, 90)"
    by (simp add: compress_bucket_def d i div_480_8 div_720_8 int_60_90)
  then have cb: "compress_buckets 1 8 8 [(9007199254740993, 480, 720)] =
      Inr [(9007199254740992, 60, 90)]"
    by simp
  show ?thesis
    unfolding T2VDatasetWithBuckets_init_def base_two_videos cb by simp
qed

text \<open>
  The claim as stated, for every list of raw buckets, fails in two places. At a negative
  dimension: the code divides in floating point and truncates toward zero, so \<open>int(-7 / 2)\<close>
  is \<open>int(-3.5)\<close>, which is -3, where the floor of the quotient is -4. And at a dimension
  that a \<open>float64\<close> does not hold: \<open>2^53 + 1\<close> divided by 1 gives \<open>2^53\<close>.
\<close>

theorem working_buckets_truncate_and_round:
  "T2VDatasetWithBuckets_init no_decoder two_videos [(- 7, 480, 720)] 2 8 8
      ''/d'' ''c.txt'' ''v.txt'' None None =
     Inr (two_video_dataset\<lparr>kind := WithBuckets [(- 3, 60, 90)]\<rparr>)
   \<and> map (\<lambda>(f, h, w). (f div 2, h div 8, w div 8)) [(- 7 :: int, 480 :: int, 720 :: int)]
       = [(- 4, 60, 90)]
   \<and> T2VDatasetWithBuckets_init no_decoder two_videos [(9007199254740993, 480, 720)] 1 8 8
        ''/d'' ''c.txt'' ''v.txt'' None None =
       Inr (two_video_dataset\<lparr>kind := WithBuckets [(9007199254740992, 60, 90)]\<rparr>)
   \<and> map (\<lambda>(f, h, w). (f div 1, h div 8, w div 8))
         [(9007199254740993 :: int, 480 :: int, 720 :: int)]
       = [(9007199254740993, 60, 90)]"
  unfolding working_buckets_negative_size working_buckets_large_size by simp

section \<open>The frame transform\<close>

lemma concat_chunks:
  "concat (map (\<lambda>i. take sz (drop (i * sz) xs)) [0..<n]) = take (n * sz) xs"
proof (induction n)
  case 0
  then show ?case by simp
next
  case (Suc n)
  have "take (n * sz) xs @ take sz (drop (n * sz) xs) = take (n * sz + sz) xs"
    by (simp add: take_add)
  with Suc show ?case by (simp add: add.commute)
qed

lemma frame_transform_eq:
  "frame_transform x =
     \<lparr>shape = shape x, storage = map (frame_value (dtype x)) (storage x), dev = dev x,
      dtype = float_type (dtype x)\<rparr>"
  by (simp add: frame_transform_def)

lemma promote_same: "promote d d = d"
  by (cases d) (simp_all add: promote_def)

lemma foldr_promote_same: "\<forall>u\<in>set ds. u = d \<Longrightarrow> foldr promote ds d = d"
  by (induction ds) (simp_all add: promote_same)

lemma torch_stack0_uniform:
  assumes "ts \<noteq> []" "\<forall>u\<in>set ts. shape u = s \<and> dev u = d \<and> dtype u = dt"
  shows "torch_stack0 ts =
    Inr \<lparr>shape = length ts # s, storage = concat (map storage ts), dev = d, dtype = dt\<rparr>"
proof (cases ts)
  case Nil
  with assms(1) show ?thesis by simp
next
  case (Cons t rest)
  with assms(2) have "foldr promote (map dtype rest) dt = dt"
    by (intro foldr_promote_same) auto
  with Cons assms(2) show ?thesis
    by (auto simp: torch_stack0_def list_all_iff)
qed

lemma stack_transformed_eq:
  assumes "shape frames = n # rest" "0 < n" "tensor_ok frames"
  shows "stack_transformed frames =
     Inr \<lparr>shape = n # rest, storage = map (frame_value (dtype frames)) (storage frames),
          dev = dev frames, dtype = float_type (dtype frames)\<rparr>"
proof -
  let ?f = "frame_value (dtype frames)"
  let ?sz = "prod_list rest"
  let ?slice = "\<lambda>i. \<lparr>shape = rest, storage = take ?sz (drop (i * ?sz) (storage frames)),
                      dev = dev frames, dtype = dtype frames\<rparr>"
  have u: "unbind0 frames = Inr (map ?slice [0..<n])"
    by (simp add: unbind0_def assms(1))
  have len: "length (storage frames) = n * ?sz"
    using assms(1,3) by (simp add: tensor_ok_def)
  have "concat (map storage (map frame_transform (map ?slice [0..<n]))) =
        concat (map (\<lambda>i. map ?f (take ?sz (drop (i * ?sz) (storage frames)))) [0..<n])"
    by (simp add: frame_transform_eq comp_def)
  also have "\<dots> = map ?f (concat (map (\<lambda>i. take ?sz (drop (i * ?sz) (storage frames))) [0..<n]))"
    by (simp add: map_concat comp_def)
  also have "\<dots> = map ?f (storage frames)"
    by (simp add: concat_chunks len)
  finally have c: "concat (map storage (map frame_transform (map ?slice [0..<n]))) =
      map ?f (storage frames)" .
  have "torch_stack0 (map frame_transform (map ?slice [0..<n])) =
      Inr \<lparr>shape = n # rest, storage = concat (map storage (map frame_transform (map ?slice [0..<n]))),
           dev = dev frames, dtype = float_type (dtype frames)\<rparr>"
  proof -
    have ne: "map frame_transform (map ?slice [0..<n]) \<noteq> []"
      using assms(2) by simp
    have un: "\<forall>u\<in>set (map frame_transform (map ?slice [0..<n])).
        shape u = rest \<and> dev u = dev frames \<and> dtype u = float_type (dtype frames)"
      by (auto simp: frame_transform_eq)
    from torch_stack0_uniform [OF ne un] show ?thesis by simp
  qed
  with c u show ?thesis by (simp add: stack_transformed_def)
qed

lemma video_transform_variants:
  "kind ds \<noteq> Base \<Longrightarrow> video_transform ds frames = stack_transformed frames"
  by (cases "kind ds") (simp_all add: video_transform_def)


lemma fl_cases:
  "fl d x = round_single x \<or> fl d x = round_double x"
  by (cases d) (simp_all add: fl_def float_type_def)

lemma round_exact:
  "round_single 0 = 0" "round_single 1 = 1" "round_single 2 = 2" "round_single (- 1) = - 1"
  "round_double 0 = 0" "round_double 1 = 1" "round_double 2 = 2" "round_double (- 1) = - 1"
  by (simp_all add: float_eval)

lemma fl_exact: "fl d 0 = 0" "fl d 1 = 1" "fl d 2 = 2" "fl d (- 1) = - 1"
  by (cases d; simp add: fl_def float_type_def round_exact)+

lemma frame_value_ends: "frame_value d 0 = - 1" "frame_value d 255 = 1"
  by (simp_all add: frame_value_def fl_exact)


lemma single_fifth: "round_single (1 / 5) = 13421773 / 67108864"
  by (simp add: float_eval)

lemma single_two_fifths: "round_single (2 / 5) = 13421773 / 33554432"
  by (simp add: float_eval)

lemma frame_value_51: "frame_value UInt8 51 = - (5033165 / 8388608)"
proof -
  have a: "fl UInt8 (51 / 255) = 13421773 / 67108864"
    using single_fifth by (simp add: fl_def float_type_def)
  have b: "fl UInt8 (13421773 / 67108864 * 2) = 13421773 / 33554432"
    by (simp add: fl_def float_type_def float_eval)
  have c: "fl UInt8 (13421773 / 33554432 - 1) = - (5033165 / 8388608)"
    by (simp add: fl_def float_type_def float_eval)
  show ?thesis unfolding frame_value_def a b c ..
qed

lemma frame_value_102: "frame_value UInt8 102 = - (3355443 / 16777216)"
proof -
  have a: "fl UInt8 (102 / 255) = 13421773 / 33554432"
    using single_two_fifths by (simp add: fl_def float_type_def)
  have b: "fl UInt8 (13421773 / 33554432 * 2) = 13421773 / 16777216"
    by (simp add: fl_def float_type_def float_eval)
  have c: "fl UInt8 (13421773 / 16777216 - 1) = - (3355443 / 16777216)"
    by (simp add: fl_def float_type_def float_eval)
  show ?thesis unfolding frame_value_def a b c ..
qed

lemma transformed_four_pixels:
  "video_transform two_video_dataset four_pixels =
     Inr \<lparr>shape = [2, 2, 1, 1],
          storage = [- 1, 1, - (5033165 / 8388608), - (3355443 / 16777216)],
          dev = Cpu, dtype = Float32\<rparr>"
proof -
  have k: "kind two_video_dataset \<noteq> Base" by (simp add: two_video_dataset_def)
  have s: "shape four_pixels = 2 # [2, 1, 1]" by (simp add: four_pixels_def)
  have t: "tensor_ok four_pixels" by (simp add: tensor_ok_def four_pixels_def)
  have d: "dtype four_pixels = UInt8" "dev four_pixels = Cpu"
    "storage four_pixels = [0, 255, 51, 102]"
    by (simp_all add: four_pixels_def)
  have "stack_transformed four_pixels =
     Inr \<lparr>shape = 2 # [2, 1, 1], storage = map (frame_value (dtype four_pixels)) (storage four_pixels),
          dev = dev four_pixels, dtype = float_type (dtype four_pixels)\<rparr>"
    using s _ t by (rule stack_transformed_eq) simp
  then show ?thesis
    unfolding video_transform_variants [OF k] d
    by (simp add: frame_value_ends frame_value_51 frame_value_102 float_type_def)
qed




section \<open>The cache miss\<close>

lemma length_indices: "length (indices s) = prod_list s"
  by (induction s) (simp_all add: length_concat comp_def sum_list_triv)

lemma nth_concat_equal_length:
  assumes "\<forall>x\<in>set xss. length x = L" "i < length xss" "r < L"
  shows "concat xss ! (i * L + r) = xss ! i ! r"
  using assms
proof (induction xss arbitrary: i)
  case Nil
  then show ?case by simp
next
  case (Cons x xss)
  show ?case
  proof (cases i)
    case 0
    with Cons.prems show ?thesis by (simp add: nth_append)
  next
    case (Suc j)
    with Cons.prems have "concat xss ! (j * L + r) = xss ! j ! r"
      by (intro Cons.IH) auto
    moreover from Cons.prems have "length x = L" by simp
    ultimately show ?thesis using Suc by (simp add: nth_append)
  qed
qed

lemma ravel_less:
  "list_all2 (<) idx s \<Longrightarrow> ravel s idx < prod_list s"
proof (induction idx s rule: list_all2_induct)
  case Nil
  then show ?case by simp
next
  case (Cons i idx n s)
  have "i * prod_list s + ravel s idx < i * prod_list s + prod_list s"
    using Cons.IH by simp
  also have "\<dots> = Suc i * prod_list s" by simp
  also have "\<dots> \<le> n * prod_list s"
    using Cons.hyps(1) by (intro mult_le_mono1) simp
  finally show ?case by simp
qed

lemma indices_nth_ravel:
  "list_all2 (<) idx s \<Longrightarrow> indices s ! ravel s idx = idx"
proof (induction idx s rule: list_all2_induct)
  case Nil
  then show ?case by simp
next
  case (Cons i idx n s)
  let ?xss = "map (\<lambda>i. map ((#) i) (indices s)) [0..<n]"
  have r: "ravel s idx < prod_list s" using Cons.hyps(2) by (rule ravel_less)
  have "concat ?xss ! (i * prod_list s + ravel s idx) = ?xss ! i ! ravel s idx"
    using Cons.hyps(1) r by (intro nth_concat_equal_length) (auto simp: length_indices)
  also have "\<dots> = i # indices s ! ravel s idx"
    using Cons.hyps(1) r by (simp add: length_indices)
  finally show ?case using Cons.IH by simp
qed

lemma elem_at_permute:
  assumes "permute dims t = Inr u" "list_all2 (<) idx (shape u)"
  shows "elem_at u idx = elem_at t (source_index dims idx)"
proof -
  from assms(1) have u: "u = t\<lparr>shape := map (\<lambda>d. shape t ! d) dims,
      storage := map (\<lambda>idx. storage t ! ravel (shape t) (source_index dims idx))
                     (indices (map (\<lambda>d. shape t ! d) dims))\<rparr>"
    by (auto simp: permute_def split: if_splits)
  then have s: "shape u = map (\<lambda>d. shape t ! d) dims" by simp
  from assms(2) have "ravel (shape u) idx < length (indices (shape u))"
    by (simp add: length_indices ravel_less)
  then have "storage u ! ravel (shape u) idx =
      storage t ! ravel (shape t) (source_index dims (indices (shape u) ! ravel (shape u) idx))"
    unfolding s by (subst u) simp
  with assms(2) show ?thesis by (simp add: elem_at_def indices_nth_ravel)
qed

lemma permute_batch:
  assumes "shape t = [b, f, c, h, x]"
  shows "\<exists>u. permute [0, 2, 1, 3, 4] t = Inr u \<and> shape u = [b, c, f, h, x] \<and> dev u = dev t"
proof -
  have "sort [0, 2, 1, 3, 4 :: nat] = [0..<length [b, f, c, h, x]]" by code_simp
  then have "sort [0, 2, 1, 3, 4 :: nat] = [0..<length (shape t)]" by (simp only: assms)
  then have "permute [0, 2, 1, 3, 4] t =
      Inr (t\<lparr>shape := map (\<lambda>d. shape t ! d) [0, 2, 1, 3, 4],
                storage := map (\<lambda>idx. storage t ! ravel (shape t) (source_index [0, 2, 1, 3, 4] idx))
                               (indices (map (\<lambda>d. shape t ! d) [0, 2, 1, 3, 4]))\<rparr>)"
    by (simp add: permute_def del: upt_Suc)
  with assms show ?thesis by simp
qed

lemma source_index_batch:
  "source_index [0, 2, 1, 3, 4] [b, c, f, h, x] = [b, f, c, h, x]"
proof -
  have "[0..<length [0, 2, 1, 3, 4 :: nat]] = [0, 1, 2, 3, 4]" by code_simp
  then show ?thesis by (simp add: source_index_def index_of_def del: upt_Suc)
qed


lemma select0_first:
  assumes "shape out = b # rest" "0 < b"
  shows "select0 out 0 =
    Inr \<lparr>shape = rest, storage = take (prod_list rest) (storage out), dev = dev out,
         dtype = dtype out\<rparr>"
  using assms by (simp add: select0_def)

lemma torch_save_new:
  assumes "lookup fs q = None" "is_dir fs (parent q)"
  shows "torch_save fs t q = Inr (fs(q \<mapsto> File (SavedTensor t)))"
  using assms by (simp add: torch_save_def is_dir_def)

lemma tensor_to_fields [simp]:
  "shape (tensor_to d t) = shape t" "storage (tensor_to d t) = storage t"
  by (cases d; simp add: tensor_to_def)+

lemma tensor_ok_tensor_to: "tensor_ok (tensor_to d t) = tensor_ok t"
  by (simp add: tensor_ok_def)

text \<open>
  Claim C7. On a cache miss (the index names a prompt and a video, the \<open>latent\<close> directory has
  been made, no cache entry is there), with frames of shape \<open>(F, C, H, W)\<close> from the decoder:
  the transformed frames keep that shape; the tensor handed to the encode function has shape
  \<open>(1, C, F, H, W)\<close> and holds at \<open>[0, c, f, h, x]\<close> the element of the transformed frames at
  \<open>[f, c, h, x]\<close>; and when the encode function returns a tensor of five axes with a
  non-empty first axis, the latent returned is its first slice, of the shape of the other four
  axes, moved to the CPU, saved at the cache path, with axes 1, 2, 3 of its own shape as the
  metadata. The trace shows the order of the calls.
\<close>

theorem cache_miss_encodes_batched_frames:
  assumes "py_getitem (prompts ds) i = Inr p"
      and "py_getitem (videos ds) i = Inr video"
      and "path_ok video"
      and "mkdir_parents (files w) (latent_dir video) = Inr fs1"
      and "lookup fs1 (latent_path video) = None"
      and "kind ds \<noteq> Base"
      and "preprocess ds ext fs1 video = Inr frames"
      and "shape frames = [F, C, H, W]"
      and "0 < F"
      and "tensor_ok frames"
      and "encode_video_fn ds = Some enc"
  shows "\<exists>transformed batched.
           video_transform ds (tensor_to (device ds) frames) = Inr transformed
         \<and> shape transformed = [F, C, H, W]
         \<and> permute [0, 2, 1, 3, 4] (unsqueeze0 transformed) = Inr batched
         \<and> shape batched = [1, C, F, H, W]
         \<and> (\<forall>f<F. \<forall>c<C. \<forall>h<H. \<forall>x<W.
               elem_at batched [0, c, f, h, x] = elem_at transformed [f, c, h, x])
         \<and> (\<forall>out b lc lf lh lw.
               enc batched = Inr out \<and> shape out = [b, lc, lf, lh, lw] \<and> 0 < b \<longrightarrow>
               (\<exists>first w'.
                  select0 out 0 = Inr first
                \<and> shape (cpu first) = [lc, lf, lh, lw]
                \<and> getitem ds ext (IntIndex i :: 'b index) w =
                    (Inr (Item \<lparr>prompt = p, encoded_video = cpu first,
                                 video_metadata =
                                   \<lparr>num_frames = shape (cpu first) ! 1,
                                    height = shape (cpu first) ! 2,
                                    width = shape (cpu first) ! 3\<rparr>\<rparr>), w')
                \<and> trace w' = trace w @
                     [Mkdir (latent_dir video), ExistsCheck (latent_path video),
                      Preprocess video, VideoTransform (tensor_to (device ds) frames),
                      EncodeVideo batched, TorchSave (latent_path video),
                      LogInfo (''Saved encoded video to '' @ path_str (latent_path video))]
                \<and> files w' = fs1(latent_path video \<mapsto> File (SavedTensor (cpu first)))))"
proof -
  let ?ld = "latent_dir video" and ?lp = "latent_path video"
  let ?on = "tensor_to (device ds) frames"
  obtain transformed where
    vt: "video_transform ds ?on = Inr transformed" and st: "shape transformed = [F, C, H, W]"
    using assms(6,8,9,10)
    by (simp add: video_transform_variants stack_transformed_eq tensor_ok_tensor_to)
  have su: "shape (unsqueeze0 transformed) = [1, F, C, H, W]"
    by (simp add: unsqueeze0_def st)
  from permute_batch [OF su] obtain batched where
    pb: "permute [0, 2, 1, 3, 4] (unsqueeze0 transformed) = Inr batched"
        "shape batched = [1, C, F, H, W]"
    by blast
  have el: "\<forall>f<F. \<forall>c<C. \<forall>h<H. \<forall>x<W.
               elem_at batched [0, c, f, h, x] = elem_at transformed [f, c, h, x]"
  proof (intro allI impI)
    fix f c h x
    assume b: "f < F" "c < C" "h < H" "x < W"
    then have "list_all2 (<) [0, c, f, h, x] (shape batched)"
      by (simp add: pb(2))
    from elem_at_permute [OF pb(1) this]
    have "elem_at batched [0, c, f, h, x] = elem_at (unsqueeze0 transformed) [0, f, c, h, x]"
      by (simp only: source_index_batch)
    then show "elem_at batched [0, c, f, h, x] = elem_at transformed [f, c, h, x]"
      by (simp add: elem_at_def unsqueeze0_def st)
  qed
  have d1: "is_dir fs1 ?ld" using assms(4) by (rule mkdir_parents_is_dir)
  have ne: "\<not> path_exists fs1 ?lp" using assms(5) by (simp add: path_exists_def)
  have enc_part: "\<exists>first w'.
                  select0 out 0 = Inr first
                \<and> shape (cpu first) = [lc, lf, lh, lw]
                \<and> getitem ds ext (IntIndex i :: 'b index) w =
                    (Inr (Item \<lparr>prompt = p, encoded_video = cpu first,
                                 video_metadata =
                                   \<lparr>num_frames = shape (cpu first) ! 1,
                                    height = shape (cpu first) ! 2,
                                    width = shape (cpu first) ! 3\<rparr>\<rparr>), w')
                \<and> trace w' = trace w @
                     [Mkdir ?ld, ExistsCheck ?lp, Preprocess video, VideoTransform ?on,
                      EncodeVideo batched, TorchSave ?lp,
                      LogInfo (''Saved encoded video to '' @ path_str ?lp)]
                \<and> files w' = fs1(?lp \<mapsto> File (SavedTensor (cpu first)))"
    if o: "enc batched = Inr out" "shape out = [b, lc, lf, lh, lw]" "0 < b"
    for out b lc lf lh lw
  proof -
    obtain first where s0: "select0 out 0 = Inr first" and sf: "shape first = [lc, lf, lh, lw]"
      using select0_first [OF o(2,3)] by simp
    have sc: "shape (cpu first) = [lc, lf, lh, lw]" by (simp add: cpu_def sf)
    have ts: "torch_save fs1 (cpu first) ?lp = Inr (fs1(?lp \<mapsto> File (SavedTensor (cpu first))))"
      using assms(5) d1 assms(3) by (intro torch_save_new) (simp_all add: parent_latent_path)
    have ms: "make_sample p (cpu first) =
        Inr \<lparr>prompt = p, encoded_video = cpu first,
             video_metadata = \<lparr>num_frames = shape (cpu first) ! 1,
               height = shape (cpu first) ! 2, width = shape (cpu first) ! 3\<rparr>\<rparr>"
      by (rule make_sample_rank4) (simp add: sc)
    let ?w2 = "emit (ExistsCheck ?lp) (emit (Mkdir ?ld) w\<lparr>files := fs1\<rparr>)"
    let ?w5 = "emit (LogInfo (''Saved encoded video to '' @ path_str ?lp))
           ((emit (TorchSave ?lp) (emit (EncodeVideo batched) (emit (VideoTransform ?on)
               (emit (Preprocess video) ?w2))))\<lparr>files := fs1(?lp \<mapsto> File (SavedTensor (cpu first)))\<rparr>)"
    have es: "encode_and_save ds ext video ?lp ?w2 = (Inr (cpu first), ?w5)"
      unfolding encode_and_save_def Let_def
      by (simp add: assms(7) vt pb(1) assms(11) o(1) s0 ts del: One_nat_def)
    have "getitem ds ext (IntIndex i :: 'b index) w =
        (Inr (Item \<lparr>prompt = p, encoded_video = cpu first,
             video_metadata = \<lparr>num_frames = shape (cpu first) ! 1,
               height = shape (cpu first) ! 2, width = shape (cpu first) ! 3\<rparr>\<rparr>), ?w5)"
      unfolding getitem_def Let_def
      by (simp add: assms(1,2,4) ne es ms del: One_nat_def)
    moreover have "trace ?w5 = trace w @
                     [Mkdir ?ld, ExistsCheck ?lp, Preprocess video, VideoTransform ?on,
                      EncodeVideo batched, TorchSave ?lp,
                      LogInfo (''Saved encoded video to '' @ path_str ?lp)]"
      by (simp add: emit_def)
    moreover have "files ?w5 = fs1(?lp \<mapsto> File (SavedTensor (cpu first)))"
      by (simp add: emit_def)
    ultimately show ?thesis using s0 sc by blast
  qed
  from vt st pb el enc_part show ?thesis
    by (intro exI [of _ transformed] exI [of _ batched]) blast
qed

theorem cache_miss_encodes_batched_frames_witness:
  "py_getitem (prompts toy_dataset) 0 = Inr ''cat''
   \<and> py_getitem (videos toy_dataset) 0 = Inr (Path ''/'' [''d'', ''a.mp4''])
   \<and> path_ok (Path ''/'' [''d'', ''a.mp4''])
   \<and> mkdir_parents two_videos (latent_dir (Path ''/'' [''d'', ''a.mp4'']))
        = Inr (two_videos(Path ''/'' [''d'', ''latent''] \<mapsto> Dir))
   \<and> lookup (two_videos(Path ''/'' [''d'', ''latent''] \<mapsto> Dir))
         (latent_path (Path ''/'' [''d'', ''a.mp4''])) = None
   \<and> kind toy_dataset \<noteq> Base
   \<and> preprocess toy_dataset toy_decoder (two_videos(Path ''/'' [''d'', ''latent''] \<mapsto> Dir))
         (Path ''/'' [''d'', ''a.mp4'']) = Inr four_pixels
   \<and> shape four_pixels = [2, 2, 1, 1]
   \<and> tensor_ok four_pixels
   \<and> encode_video_fn toy_dataset = Some toy_encode
   \<and> fst (getitem toy_dataset toy_decoder (IntIndex 0 :: unit index)
             \<lparr>files = two_videos, trace = []\<rparr>) =
       Inr (Item \<lparr>prompt = ''cat'',
                   encoded_video = \<lparr>shape = [2, 1, 1, 1], storage = [- 1, 1], dev = Cpu,
                                     dtype = Float32\<rparr>,
                   video_metadata = \<lparr>num_frames = 1, height = 1, width = 1\<rparr>\<rparr>)"
proof -
  let ?a = "Path ''/'' [''d'', ''a.mp4'']"
  let ?l = "Path ''/'' [''d'', ''latent'']"
  let ?fs1 = "two_videos(?l \<mapsto> Dir)"
  let ?w = "\<lparr>files = two_videos, trace = []\<rparr>"
  have p: "py_getitem (prompts toy_dataset) 0 = Inr ''cat''"
    by (simp add: toy_dataset_def two_video_dataset_def py_getitem_def)
  have v: "py_getitem (videos toy_dataset) 0 = Inr ?a"
    by (simp add: toy_dataset_def two_video_dataset_def py_getitem_def)
  have ok: "path_ok ?a" by (simp add: path_ok_def)
  have m0: "mkdir_parents two_videos (latent_dir ?a) = Inr ?fs1"
    unfolding latent_dir_a
    by (rule mkdir_parents_creates) (simp_all add: two_videos_def fs_eval parent_def)
  have m: "mkdir_parents (files ?w) (latent_dir ?a) = Inr ?fs1" using m0 by simp
  have lp: "latent_path ?a = Path ''/'' [''d'', ''latent'', ''a.pt'']"
    by (simp add: latent_path_eq [OF ok] stem_def name_def rfind_dot_def)
  have c: "lookup ?fs1 (latent_path ?a) = None"
    by (simp add: lp lookup_def two_videos_def)
  have k: "kind toy_dataset \<noteq> Base"
    by (simp add: toy_dataset_def two_video_dataset_def)
  have pr: "preprocess toy_dataset toy_decoder ?fs1 ?a = Inr four_pixels"
    by (simp add: preprocess_def toy_dataset_def two_video_dataset_def toy_decoder_def
        fs_eval two_videos_def)
  have s: "shape four_pixels = [2, 2, 1, 1]" by (simp add: four_pixels_def)
  have f: "0 < (2::nat)" by simp
  have t: "tensor_ok four_pixels" by (simp add: tensor_ok_def four_pixels_def)
  have e: "encode_video_fn toy_dataset = Some toy_encode" by (simp add: toy_dataset_def)
  from cache_miss_encodes_batched_frames [OF p v ok m c k pr s f t e, where ?'b = unit]
  obtain transformed batched where
    h: "video_transform toy_dataset (tensor_to (device toy_dataset) four_pixels) = Inr transformed"
       "shape batched = [1, 2, 2, 1, 1]"
       "\<forall>f<2. \<forall>c<2. \<forall>h<1. \<forall>x<1.
           elem_at batched [0, c, f, h, x] = elem_at transformed [f, c, h, x]"
       "\<forall>out b lc lf lh lw.
          toy_encode batched = Inr out \<and> shape out = [b, lc, lf, lh, lw] \<and> 0 < b \<longrightarrow>
          (\<exists>first w'.
              select0 out 0 = Inr first
            \<and> shape (cpu first) = [lc, lf, lh, lw]
            \<and> getitem toy_dataset toy_decoder (IntIndex 0 :: unit index) ?w =
                (Inr (Item \<lparr>prompt = ''cat'', encoded_video = cpu first,
                             video_metadata =
                               \<lparr>num_frames = shape (cpu first) ! 1,
                                height = shape (cpu first) ! 2,
                                width = shape (cpu first) ! 3\<rparr>\<rparr>), w')
            \<and> trace w' = trace ?w @
                 [Mkdir (latent_dir ?a), ExistsCheck (latent_path ?a),
                  Preprocess ?a, VideoTransform (tensor_to (device toy_dataset) four_pixels),
                  EncodeVideo batched, TorchSave (latent_path ?a),
                  LogInfo (''Saved encoded video to '' @ path_str (latent_path ?a))]
            \<and> files w' = ?fs1(latent_path ?a \<mapsto> File (SavedTensor (cpu first))))"
    by (elim exE conjE) (rule that; assumption)
  have on: "tensor_to (device toy_dataset) four_pixels = four_pixels"
    by (simp add: tensor_to_def toy_dataset_def two_video_dataset_def)
  have "video_transform toy_dataset four_pixels = video_transform two_video_dataset four_pixels"
    by (simp add: video_transform_def toy_dataset_def)
  with h(1) have tr: "transformed =
      \<lparr>shape = [2, 2, 1, 1],
       storage = [- 1, 1, - (5033165 / 8388608), - (3355443 / 16777216)],
       dev = Cpu, dtype = Float32\<rparr>"
    by (simp add: on transformed_four_pixels)
  have b0: "storage batched ! 0 = - 1"
    using h(3) [rule_format, of 0 0 0 0] by (simp add: elem_at_def h(2) tr)
  have b2: "storage batched ! 2 = 1"
    using h(3) [rule_format, of 0 1 0 0] by (simp add: elem_at_def h(2) tr numeral_2_eq_2)
  let ?out = "\<lparr>shape = [1, 2, 1, 1, 1], storage = [- 1, 1], dev = Cuda 0, dtype = Float32\<rparr>"
  have te: "toy_encode batched = Inr ?out"
    by (simp add: toy_encode_def b0 b2)
  from h(4) [rule_format, of ?out 1 2 1 1 1] te obtain first w' where
    g: "select0 ?out 0 = Inr first"
       "getitem toy_dataset toy_decoder (IntIndex 0 :: unit index) ?w =
          (Inr (Item \<lparr>prompt = ''cat'', encoded_video = cpu first,
                       video_metadata =
                         \<lparr>num_frames = shape (cpu first) ! 1,
                          height = shape (cpu first) ! 2,
                          width = shape (cpu first) ! 3\<rparr>\<rparr>), w')"
    by auto
  from g(1) have "first = \<lparr>shape = [2, 1, 1, 1], storage = [- 1, 1], dev = Cuda 0, dtype = Float32\<rparr>"
    by (simp add: select0_def)
  then have "cpu first = \<lparr>shape = [2, 1, 1, 1], storage = [- 1, 1], dev = Cpu,
                                     dtype = Float32\<rparr>"
    by (simp add: cpu_def)
  with g(2) have "fst (getitem toy_dataset toy_decoder (IntIndex 0 :: unit index) ?w) =
       Inr (Item \<lparr>prompt = ''cat'',
                   encoded_video = \<lparr>shape = [2, 1, 1, 1], storage = [- 1, 1], dev = Cpu,
                                     dtype = Float32\<rparr>,
                   video_metadata = \<lparr>num_frames = 1, height = 1, width = 1\<rparr>\<rparr>)"
    by simp
  with p v ok m0 c k pr s t e show ?thesis by simp
qed

end
